theory Spec2Isabelle
  imports Main "HOL-Library.Char_ord" "HOL-Library.List_Lexorder" "HOL-Library.AList"
    "HOL-Library.Multiset"
begin

section \<open>The SQLite backend of the local status cache\<close>

text \<open>
  A shallow embedding of \<^verbatim>\<open>offlineimap/folder/LocalStatusSQLite.py\<close>.

  Python values are modelled as follows. A \<^verbatim>\<open>str\<close> is a \<open>string\<close>; its characters are
  the code points below 256, ordered by code point, and a list of strings is ordered
  lexicographically, as Python's \<^verbatim>\<open>sorted\<close> orders them. A set of flags is a
  \<open>char set\<close> (each flag is one character), a set of labels a \<open>string set\<close>. A \<^verbatim>\<open>dict\<close>
  is an association list in insertion order. \<^verbatim>\<open>None\<close> is \<open>None\<close>.

  A call that raises returns \<open>Inl\<close> of the exception together with the state reached when
  it was raised (the mutations made before a \<^verbatim>\<open>raise\<close> stay). A call that never returns
  (a lock that is never released, a retry loop that never succeeds) is \<open>None\<close>.
\<close>

subsection \<open>Exceptions\<close>

datatype error =
    OperationalError string
  | IntegrityError string
  | ProgrammingError string
  | AssertionError
  | AttributeError
  | TypeError
  | ValueError
  | KeyError int
  | UserWarning error

text \<open>\<^verbatim>\<open>sqlite3.DatabaseError\<close> and its subclasses.\<close>

fun is_DatabaseError :: "error \<Rightarrow> bool" where
  "is_DatabaseError (OperationalError m) = True"
| "is_DatabaseError (IntegrityError m) = True"
| "is_DatabaseError (ProgrammingError m) = True"
| "is_DatabaseError e = False"

subsection \<open>Serialised flags and labels\<close>

text \<open>\<^verbatim>\<open>''.join(sorted(flags))\<close>\<close>

definition flags_str :: "char set \<Rightarrow> string" where
  "flags_str fl = sorted_list_of_set fl"

text \<open>\<^verbatim>\<open>sep.join(xs)\<close>\<close>

fun join :: "string \<Rightarrow> string list \<Rightarrow> string" where
  "join sep [] = []"
| "join sep [x] = x"
| "join sep (x # y # ys) = x @ sep @ join sep (y # ys)"

text \<open>\<^verbatim>\<open>', '.join(sorted(labels))\<close>\<close>

definition labels_str :: "string set \<Rightarrow> string" where
  "labels_str lb = join '', '' (sorted_list_of_set lb)"

text \<open>\<^verbatim>\<open>s.split(c)\<close> for a one-character separator: one more piece than separators.\<close>

fun split :: "char \<Rightarrow> string \<Rightarrow> string list" where
  "split c [] = [[]]"
| "split c (x # xs) =
     (if x = c then [] # split c xs
      else (case split c xs of [] \<Rightarrow> [[x]] | p # ps \<Rightarrow> (x # p) # ps))"

text \<open>
  The characters \<^verbatim>\<open>str.strip()\<close> removes, among the code points below 256: tab to
  carriage return, the four separators 28 to 31, the space, NEL and the no-break space.
\<close>

definition is_space :: "char \<Rightarrow> bool" where
  "is_space c = (of_char c \<in> {9, 10, 11, 12, 13, 28, 29, 30, 31, 32, 133, 160 :: nat})"

definition strip :: "string \<Rightarrow> string" where
  "strip s = rev (dropWhile is_space (rev (dropWhile is_space s)))"

text \<open>\<^verbatim>\<open>set(row[1])\<close>: the characters of the stored string; \<^verbatim>\<open>set(None)\<close> raises.\<close>

definition parse_flags :: "string option \<Rightarrow> error + char set" where
  "parse_flags v = (case v of None \<Rightarrow> Inl TypeError | Some s \<Rightarrow> Inr (set s))"

text \<open>
  \<^verbatim>\<open>set([lb.strip() for lb in row[3].split(',') if len(lb.strip()) > 0])\<close>, and the empty
  set when \<^verbatim>\<open>row[3]\<close> is \<^verbatim>\<open>None\<close> (the \<^verbatim>\<open>AttributeError\<close> that is caught).
\<close>

definition parse_labels :: "string option \<Rightarrow> string set" where
  "parse_labels v =
     (case v of
        None \<Rightarrow> {}
      | Some s \<Rightarrow> set (map strip (filter (\<lambda>lb. length (strip lb) > 0) (split CHR '','' s))))"

subsection \<open>The database file\<close>

text \<open>
  A row of the table \<^verbatim>\<open>status\<close>, keyed by its \<^verbatim>\<open>id\<close>; \<open>None\<close> is SQL NULL, which is also
  what a column the table does not have holds. The table lists the columns it has.
\<close>

record row =
  col_flags :: "string option"
  col_mtime :: "int option"
  col_labels :: "string option"

record table =
  columns :: "string list"
  rows :: "(int \<times> row) list"

text \<open>A table that is \<open>None\<close> does not exist. A new file has no table.\<close>

record database =
  metadata :: "(string \<times> string) list option"
  status :: "table option"

definition empty_database :: database where
  "empty_database = \<lparr>metadata = None, status = None\<rparr>"

text \<open>The statements that \<^verbatim>\<open>__sql_write\<close> is called with, with their bound values.\<close>

datatype stmt =
    INSERT_status int string "int option" string
  | INSERT_OR_REPLACE_status int string "int option" string
  | UPDATE_flags string int
  | UPDATE_labels string int
  | UPDATE_labels_mtime string int int
  | DELETE_status int

text \<open>The statements of the two scripts.\<close>

datatype script_stmt =
    CREATE_TABLE_metadata
  | INSERT_metadata string string
  | CREATE_TABLE_status
  | ALTER_status_ADD_mtime
  | ALTER_status_ADD_labels
  | UPDATE_metadata string string

definition no_such_table :: "string \<Rightarrow> error" where
  "no_such_table t = OperationalError (''no such table: '' @ t)"

definition no_such_column :: "string \<Rightarrow> error" where
  "no_such_column c = OperationalError (''no such column: '' @ c)"

text \<open>Change the rows whose id is \<open>i\<close>.\<close>

definition modify :: "'k \<Rightarrow> ('v \<Rightarrow> 'v) \<Rightarrow> ('k \<times> 'v) list \<Rightarrow> ('k \<times> 'v) list" where
  "modify k g al = map (\<lambda>(k', v). if k' = k then (k', g v) else (k', v)) al"

definition has_columns :: "table \<Rightarrow> string list \<Rightarrow> bool" where
  "has_columns t cs = (set cs \<subseteq> set (columns t))"

text \<open>The first column of \<open>cs\<close> that the table lacks.\<close>

definition missing_column :: "table \<Rightarrow> string list \<Rightarrow> string" where
  "missing_column t cs = (case filter (\<lambda>c. c \<notin> set (columns t)) cs of [] \<Rightarrow> [] | c # _ \<Rightarrow> c)"

definition on_status ::
  "string list \<Rightarrow> (table \<Rightarrow> error + table) \<Rightarrow> database \<Rightarrow> error + database" where
  "on_status cs g db =
     (case status db of
        None \<Rightarrow> Inl (no_such_table ''status'')
      | Some t \<Rightarrow>
          if \<not> has_columns t cs then Inl (no_such_column (missing_column t cs))
          else (case g t of Inl e \<Rightarrow> Inl e | Inr t' \<Rightarrow> Inr (db\<lparr>status := Some t'\<rparr>)))"

fun exec_stmt :: "stmt \<Rightarrow> database \<Rightarrow> error + database" where
  "exec_stmt (INSERT_status i fl mt lb) db =
     on_status [''id'', ''flags'', ''mtime'', ''labels'']
       (\<lambda>t. if i \<in> fst ` set (rows t)
            then Inl (IntegrityError ''UNIQUE constraint failed: status.id'')
            else Inr (t\<lparr>rows := rows t @
              [(i, \<lparr>col_flags = Some fl, col_mtime = mt, col_labels = Some lb\<rparr>)]\<rparr>)) db"
| "exec_stmt (INSERT_OR_REPLACE_status i fl mt lb) db =
     on_status [''id'', ''flags'', ''mtime'', ''labels'']
       (\<lambda>t. Inr (t\<lparr>rows := AList.delete i (rows t) @
              [(i, \<lparr>col_flags = Some fl, col_mtime = mt, col_labels = Some lb\<rparr>)]\<rparr>)) db"
| "exec_stmt (UPDATE_flags fl i) db =
     on_status [''flags'', ''id'']
       (\<lambda>t. Inr (t\<lparr>rows := modify i (\<lambda>r. r\<lparr>col_flags := Some fl\<rparr>) (rows t)\<rparr>)) db"
| "exec_stmt (UPDATE_labels lb i) db =
     on_status [''labels'', ''id'']
       (\<lambda>t. Inr (t\<lparr>rows := modify i (\<lambda>r. r\<lparr>col_labels := Some lb\<rparr>) (rows t)\<rparr>)) db"
| "exec_stmt (UPDATE_labels_mtime lb mt i) db =
     on_status [''labels'', ''mtime'', ''id'']
       (\<lambda>t. Inr (t\<lparr>rows :=
          modify i (\<lambda>r. r\<lparr>col_labels := Some lb, col_mtime := Some mt\<rparr>) (rows t)\<rparr>)) db"
| "exec_stmt (DELETE_status i) db =
     on_status [''id''] (\<lambda>t. Inr (t\<lparr>rows := AList.delete i (rows t)\<rparr>)) db"

text \<open>
  \<^verbatim>\<open>executemany\<close>: the statement once per row of values, in order, stopping at the first
  error with the earlier rows done.
\<close>

fun exec_many :: "stmt list \<Rightarrow> database \<Rightarrow> error option \<times> database" where
  "exec_many [] db = (None, db)"
| "exec_many (s # ss) db =
     (case exec_stmt s db of Inl e \<Rightarrow> (Some e, db) | Inr db' \<Rightarrow> exec_many ss db')"

fun exec_script_stmt :: "script_stmt \<Rightarrow> database \<Rightarrow> error + database" where
  "exec_script_stmt CREATE_TABLE_metadata db =
     (case metadata db of
        Some m \<Rightarrow> Inl (OperationalError ''table metadata already exists'')
      | None \<Rightarrow> Inr (db\<lparr>metadata := Some []\<rparr>))"
| "exec_script_stmt (INSERT_metadata k v) db =
     (case metadata db of
        None \<Rightarrow> Inl (no_such_table ''metadata'')
      | Some m \<Rightarrow>
          if k \<in> fst ` set m then Inl (IntegrityError ''UNIQUE constraint failed: metadata.key'')
          else Inr (db\<lparr>metadata := Some (m @ [(k, v)])\<rparr>))"
| "exec_script_stmt CREATE_TABLE_status db =
     (case status db of
        Some t \<Rightarrow> Inl (OperationalError ''table status already exists'')
      | None \<Rightarrow> Inr (db\<lparr>status :=
          Some \<lparr>columns = [''id'', ''flags'', ''mtime'', ''labels''], rows = []\<rparr>\<rparr>))"
| "exec_script_stmt ALTER_status_ADD_mtime db =
     (case status db of
        None \<Rightarrow> Inl (no_such_table ''status'')
      | Some t \<Rightarrow>
          if ''mtime'' \<in> set (columns t) then Inl (OperationalError ''duplicate column name: mtime'')
          else Inr (db\<lparr>status := Some (t\<lparr>columns := columns t @ [''mtime''],
            rows := map (\<lambda>(i, r). (i, r\<lparr>col_mtime := Some 0\<rparr>)) (rows t)\<rparr>)\<rparr>))"
| "exec_script_stmt ALTER_status_ADD_labels db =
     (case status db of
        None \<Rightarrow> Inl (no_such_table ''status'')
      | Some t \<Rightarrow>
          if ''labels'' \<in> set (columns t) then Inl (OperationalError ''duplicate column name: labels'')
          else Inr (db\<lparr>status := Some (t\<lparr>columns := columns t @ [''labels''],
            rows := map (\<lambda>(i, r). (i, r\<lparr>col_labels := Some []\<rparr>)) (rows t)\<rparr>)\<rparr>))"
| "exec_script_stmt (UPDATE_metadata k v) db =
     (case metadata db of
        None \<Rightarrow> Inl (no_such_table ''metadata'')
      | Some m \<Rightarrow> Inr (db\<lparr>metadata := Some (modify k (\<lambda>_. v) m)\<rparr>))"

fun exec_script :: "script_stmt list \<Rightarrow> database \<Rightarrow> error option \<times> database" where
  "exec_script [] db = (None, db)"
| "exec_script (s # ss) db =
     (case exec_script_stmt s db of Inl e \<Rightarrow> (Some e, db) | Inr db' \<Rightarrow> exec_script ss db')"

subsection \<open>The file lock, the connection, the world outside the folder\<close>

text \<open>
  \<^verbatim>\<open>DatabaseFileLock\<close>: \<open>held\<close> is the state of its \<^verbatim>\<open>threading.Lock\<close>, which is not
  reentrant.
\<close>

record DatabaseFileLock =
  held :: bool
  counter :: int

definition registerNewUser :: "DatabaseFileLock \<Rightarrow> DatabaseFileLock" where
  "registerNewUser l = l\<lparr>counter := counter l + 1\<rparr>"

definition removeOneUser :: "DatabaseFileLock \<Rightarrow> DatabaseFileLock" where
  "removeOneUser l = l\<lparr>counter := counter l - 1\<rparr>"

definition shouldClose :: "DatabaseFileLock \<Rightarrow> bool" where
  "shouldClose l = (counter l < 1)"

text \<open>A connection object: the file it is open on, and whether it has been closed.\<close>

record conn =
  path :: string
  closed :: bool

text \<open>The calls made on connections, for the log.\<close>

datatype call =
    Connect
  | Execute stmt
  | ExecuteMany "stmt list"
  | ExecuteScript "script_stmt list"
  | Select_db_version
  | Select_status
  | Commit
  | Close

text \<open>
  What the folder shares with the rest of the process and with the file system.
  \<open>locks\<close> is the class attribute \<^verbatim>\<open>LocalStatusSQLiteFolder.locks\<close>: a file name that has no
  entry yet stands for the \<^verbatim>\<open>DatabaseFileLock()\<close> that \<^verbatim>\<open>__init__\<close> registers for it
  (unlocked, no user). \<open>files\<close> holds the database files; a statement changes the file when it
  is executed, and \<open>calls\<close> logs every call made on a connection, \<^verbatim>\<open>commit\<close> and
  \<^verbatim>\<open>close\<close> included. \<open>faults\<close> is what the surroundings do to the calls: the \<open>n\<close>-th
  call made (counted by \<open>tick\<close>) raises \<^verbatim>\<open>sqlite3.OperationalError\<close> with the message
  \<open>faults n\<close>, if there is one. \<open>threadsafety\<close> is \<^verbatim>\<open>sqlite3.threadsafety\<close>.
\<close>

record world =
  files :: "(string \<times> database) list"
  locks :: "string \<Rightarrow> DatabaseFileLock"
  faults :: "nat \<Rightarrow> string option"
  tick :: nat
  calls :: "(string \<times> call) list"
  threadsafety :: int

definition new_lock :: DatabaseFileLock where
  "new_lock = \<lparr>held = False, counter = 0\<rparr>"

text \<open>\<^verbatim>\<open>with self._databaseFileLock.getLock():\<close> entering blocks while the lock is held.\<close>

definition acquire :: "string \<Rightarrow> world \<Rightarrow> world option" where
  "acquire p w =
     (if held (locks w p) then None
      else Some (w\<lparr>locks := (locks w)(p := (locks w p)\<lparr>held := True\<rparr>)\<rparr>))"

definition release :: "string \<Rightarrow> world \<Rightarrow> world" where
  "release p w = w\<lparr>locks := (locks w)(p := (locks w p)\<lparr>held := False\<rparr>)\<rparr>"

text \<open>The database a connection is open on (a file that is not there yet is empty).\<close>

definition file_db :: "world \<Rightarrow> string \<Rightarrow> database" where
  "file_db w p = (case map_of (files w) p of None \<Rightarrow> empty_database | Some db \<Rightarrow> db)"

definition set_file :: "string \<Rightarrow> database \<Rightarrow> world \<Rightarrow> world" where
  "set_file p db w = w\<lparr>files := AList.update p db (files w)\<rparr>"

text \<open>
  Every call on a connection is logged and counted; it raises on a closed connection,
  and when the surroundings make it fail.
\<close>

definition begin_call :: "conn \<Rightarrow> call \<Rightarrow> world \<Rightarrow> error option \<times> world" where
  "begin_call c k w =
     (let w' = w\<lparr>tick := Suc (tick w), calls := calls w @ [(path c, k)]\<rparr> in
      if closed c then (Some (ProgrammingError ''Cannot operate on a closed database.''), w')
      else (case faults w (tick w) of
              Some m \<Rightarrow> (Some (OperationalError m), w')
            | None \<Rightarrow> (None, w')))"

text \<open>
  A call that runs statements: \<open>g\<close> is what the statements do to the database of the
  connection's file.
\<close>

definition conn_call ::
  "conn \<Rightarrow> call \<Rightarrow> (database \<Rightarrow> error option \<times> database) \<Rightarrow> world \<Rightarrow> error option \<times> world" where
  "conn_call c k g w =
     (case begin_call c k w of
        (Some e, w') \<Rightarrow> (Some e, w')
      | (None, w') \<Rightarrow>
          (case g (file_db w' (path c)) of (r, db) \<Rightarrow> (r, set_file (path c) db w')))"

definition exec_one :: "stmt \<Rightarrow> database \<Rightarrow> error option \<times> database" where
  "exec_one s db = (case exec_stmt s db of Inl e \<Rightarrow> (Some e, db) | Inr db' \<Rightarrow> (None, db'))"

text \<open>\<^verbatim>\<open>connection.execute(sql, args)\<close>\<close>

definition conn_execute :: "conn \<Rightarrow> stmt \<Rightarrow> world \<Rightarrow> error option \<times> world" where
  "conn_execute c s w = conn_call c (Execute s) (exec_one s) w"

text \<open>\<^verbatim>\<open>connection.executemany(sql, args)\<close>\<close>

definition conn_executemany :: "conn \<Rightarrow> stmt list \<Rightarrow> world \<Rightarrow> error option \<times> world" where
  "conn_executemany c ss w = conn_call c (ExecuteMany ss) (exec_many ss) w"

text \<open>\<^verbatim>\<open>connection.executescript(script)\<close>\<close>

definition conn_executescript :: "conn \<Rightarrow> script_stmt list \<Rightarrow> world \<Rightarrow> error option \<times> world" where
  "conn_executescript c ss w = conn_call c (ExecuteScript ss) (exec_script ss) w"

text \<open>\<^verbatim>\<open>connection.commit()\<close>\<close>

definition conn_commit :: "conn \<Rightarrow> world \<Rightarrow> error option \<times> world" where
  "conn_commit c w = begin_call c Commit w"

text \<open>\<^verbatim>\<open>connection.close()\<close>\<close>

definition conn_close :: "conn \<Rightarrow> world \<Rightarrow> conn \<times> world" where
  "conn_close c w = (c\<lparr>closed := True\<rparr>, w\<lparr>calls := calls w @ [(path c, Close)]\<rparr>)"

text \<open>\<^verbatim>\<open>sqlite.connect(filename, check_same_thread=False)\<close>\<close>

definition connect :: "string \<Rightarrow> world \<Rightarrow> (error + conn) \<times> world" where
  "connect p w =
     (let c = \<lparr>path = p, closed = False\<rparr> in
      case begin_call c Connect w of
        (Some e, w') \<Rightarrow> (Inl e, w')
      | (None, w') \<Rightarrow> (Inr c, set_file p (file_db w' p) w'))"

subsection \<open>The folder\<close>

text \<open>
  An entry of \<^verbatim>\<open>self.messagelist\<close>. \<open>msg_mtime\<close> is \<open>None\<close> when it was loaded from a NULL.
\<close>

record message =
  msg_uid :: int
  msg_flags :: "char set"
  msg_labels :: "string set"
  msg_time :: int
  msg_mtime :: "int option"

text \<open>
  The fields of a \<^verbatim>\<open>LocalStatusSQLiteFolder\<close> that the methods below use.
  \<^verbatim>\<open>self._databaseFileLock\<close> is \<open>locks w (filename f)\<close>. \<open>dofsync\<close> is what
  \<^verbatim>\<open>self.dofsync()\<close> returns: a method of \<^verbatim>\<open>BaseFolder\<close>, whose file is not among the
  sources, so its result is a parameter of the folder.
\<close>

record folder =
  filename :: string
  newfolder :: bool
  connection :: "conn option"
  in_transactions :: int
  messagelist :: "(int \<times> message) list"
  dofsync :: bool

type_synonym state = "folder \<times> world"

type_synonym 'a result = "((error + 'a) \<times> state) option"

subsection \<open>The transaction scope\<close>

text \<open>\<^verbatim>\<open>__enter__\<close>\<close>

definition enter :: "folder \<Rightarrow> error + folder" where
  "enter f =
     (if \<not> dofsync f then
        (if connection f = None then Inl AssertionError
         else Inr (f\<lparr>in_transactions := in_transactions f + 1\<rparr>))
      else Inr f)"

text \<open>\<^verbatim>\<open>__exit__\<close>\<close>

definition exit :: "state \<Rightarrow> (error + unit) \<times> state" where
  "exit s =
     (case s of (f, w) \<Rightarrow>
      if \<not> dofsync f then
        (if \<not> in_transactions f > 0 then (Inl AssertionError, (f, w))
         else
           (let f' = f\<lparr>in_transactions := in_transactions f - 1\<rparr> in
            if in_transactions f' < 1 then
              (case connection f' of
                 None \<Rightarrow> (Inl AttributeError, (f', w))
               | Some c \<Rightarrow>
                   (case conn_commit c w of
                      (Some e, w') \<Rightarrow> (Inl e, (f', w'))
                    | (None, w') \<Rightarrow> (Inr (), (f', w'))))
            else (Inr (), (f', w))))
      else (Inr (), (f, w)))"

subsection \<open>The write executor\<close>

text \<open>What \<^verbatim>\<open>__sql_write\<close> is asked to run: \<^verbatim>\<open>executemany\<close> false or true.\<close>

datatype request = Run stmt | RunMany "stmt list"

fun call_of :: "request \<Rightarrow> call" where
  "call_of (Run s) = Execute s"
| "call_of (RunMany ss) = ExecuteMany ss"

fun conn_run :: "conn \<Rightarrow> request \<Rightarrow> world \<Rightarrow> error option \<times> world" where
  "conn_run c (Run s) w = conn_execute c s w"
| "conn_run c (RunMany ss) w = conn_executemany c ss w"

text \<open>What a request does to a database.\<close>

fun run_db :: "request \<Rightarrow> database \<Rightarrow> error option \<times> database" where
  "run_db (Run s) db = exec_one s db"
| "run_db (RunMany ss) db = exec_many ss db"

text \<open>One round of the \<^verbatim>\<open>while not success\<close> loop ends the loop or goes round again.\<close>

datatype round = Again state | Finished "error + unit" state

text \<open>
  The \<^verbatim>\<open>except sqlite.OperationalError\<close> clause; \<open>success\<close> is the variable when the
  exception arrives. Any other exception leaves the loop.
\<close>

definition handler :: "bool \<Rightarrow> error \<Rightarrow> state \<Rightarrow> round" where
  "handler success e s =
     (case e of
        OperationalError m \<Rightarrow>
          if m = ''cannot commit - no transaction is active''
          then (if success then Finished (Inr ()) s else Again s)
          else if m = ''database is locked'' then Again s
          else Finished (Inl e) s
      | _ \<Rightarrow> Finished (Inl e) s)"

text \<open>
  The body of the loop: the \<^verbatim>\<open>with\<close> block releases the lock however it is left.
  \<^verbatim>\<open>not self._in_transactions\<close> holds when the counter is 0.
\<close>

definition sql_write_round :: "request \<Rightarrow> state \<Rightarrow> round option" where
  "sql_write_round rq s =
     (case s of (f, w) \<Rightarrow>
       (case acquire (filename f) w of
          None \<Rightarrow> None
        | Some w1 \<Rightarrow>
            Some (case connection f of
               None \<Rightarrow> Finished (Inl AttributeError) (f, release (filename f) w1)
             | Some c \<Rightarrow>
                 (case conn_run c rq w1 of
                    (Some e, w2) \<Rightarrow> handler False e (f, release (filename f) w2)
                  | (None, w2) \<Rightarrow>
                      if in_transactions f = 0 then
                        (case conn_commit c w2 of
                           (Some e, w3) \<Rightarrow> handler True e (f, release (filename f) w3)
                         | (None, w3) \<Rightarrow> Finished (Inr ()) (f, release (filename f) w3))
                      else Finished (Inr ()) (f, release (filename f) w2)))))"

text \<open>\<^verbatim>\<open>__sql_write\<close>, called with \<^verbatim>\<open>args\<close> as all its callers do.\<close>

partial_function (option) sql_write :: "request \<Rightarrow> state \<Rightarrow> unit result" where
  "sql_write rq s =
     (case sql_write_round rq s of
        None \<Rightarrow> None
      | Some (Again s') \<Rightarrow> sql_write rq s'
      | Some (Finished r s') \<Rightarrow> Some (r, s'))"

subsection \<open>The cache\<close>

text \<open>
  Modelled from the spec: \<^verbatim>\<open>uidexists\<close> is a method of \<^verbatim>\<open>BaseFolder\<close>, whose file is not
  among the sources; the spec has it as \<^verbatim>\<open>exists(uid) -> bool\<close>, answered from the mirror
  alone: the uid is a key of the message list.
\<close>

definition uidexists :: "folder \<Rightarrow> int \<Rightarrow> bool" where
  "uidexists f u = (u \<in> fst ` set (messagelist f))"

definition msglist_item_initializer :: "int \<Rightarrow> message" where
  "msglist_item_initializer u =
     \<lparr>msg_uid = u, msg_flags = {}, msg_labels = {}, msg_time = 0, msg_mtime = Some 0\<rparr>"

text \<open>\<^verbatim>\<open>savemessageflags\<close>\<close>

definition savemessageflags :: "int \<Rightarrow> char set \<Rightarrow> state \<Rightarrow> unit result" where
  "savemessageflags u fl s =
     (case s of (f, w) \<Rightarrow>
      if \<not> uidexists f u then Some (Inl AssertionError, (f, w))
      else
        sql_write (Run (UPDATE_flags (flags_str fl) u))
          (f\<lparr>messagelist := modify u (\<lambda>m. m\<lparr>msg_flags := fl\<rparr>) (messagelist f)\<rparr>, w))"

text \<open>
  \<^verbatim>\<open>savemessage\<close>; \<open>content\<close> is not used. Whatever the insertion raises is raised again
  as a \<^verbatim>\<open>UserWarning\<close>.
\<close>

definition savemessage ::
  "int \<Rightarrow> string \<Rightarrow> char set \<Rightarrow> int \<Rightarrow> int \<Rightarrow> string set \<Rightarrow> state \<Rightarrow> int result" where
  "savemessage u content fl rtime mt lb s =
     (case s of (f, w) \<Rightarrow>
      if u < 0 then Some (Inr u, (f, w))
      else if uidexists f u then
        (case savemessageflags u fl (f, w) of
           None \<Rightarrow> None
         | Some (Inl e, s') \<Rightarrow> Some (Inl e, s')
         | Some (Inr _, s') \<Rightarrow> Some (Inr u, s'))
      else
        (case sql_write (Run (INSERT_status u (flags_str fl) (Some mt) (labels_str lb)))
                (f\<lparr>messagelist := AList.update u
                    \<lparr>msg_uid = u, msg_flags = fl, msg_labels = lb, msg_time = rtime,
                     msg_mtime = Some mt\<rparr> (messagelist f)\<rparr>, w) of
           None \<Rightarrow> None
         | Some (Inl e, s') \<Rightarrow> Some (Inl (UserWarning e), s')
         | Some (Inr _, s') \<Rightarrow> Some (Inr u, s')))"

text \<open>
  \<^verbatim>\<open>savemessagelabels\<close>. \<^verbatim>\<open>self.messagelist[uid]\<close> raises \<^verbatim>\<open>KeyError\<close> for a uid that
  is not there. \<^verbatim>\<open>if mtime:\<close> holds for an integer other than 0, and neither for 0 nor for
  \<^verbatim>\<open>None\<close>.
\<close>

definition savemessagelabels :: "int \<Rightarrow> string set \<Rightarrow> int option \<Rightarrow> state \<Rightarrow> unit result" where
  "savemessagelabels u lb mtime s =
     (case s of (f, w) \<Rightarrow>
      if \<not> uidexists f u then Some (Inl (KeyError u), (f, w))
      else
        (let ml = modify u (\<lambda>m. m\<lparr>msg_labels := lb\<rparr>) (messagelist f);
             plain = sql_write (Run (UPDATE_labels (labels_str lb) u)) (f\<lparr>messagelist := ml\<rparr>, w)
         in case mtime of
              None \<Rightarrow> plain
            | Some t \<Rightarrow>
                if t \<noteq> 0 then
                  sql_write (Run (UPDATE_labels_mtime (labels_str lb) t u))
                    (f\<lparr>messagelist := modify u (\<lambda>m. m\<lparr>msg_mtime := Some t\<rparr>) ml\<rparr>, w)
                else plain))"

text \<open>
  \<^verbatim>\<open>for uid, l in labels.items(): self.messagelist[uid]['labels'] = l\<close>, which stops at
  the first uid that is not in the message list.
\<close>

fun assign_labels ::
  "(int \<times> string set) list \<Rightarrow> folder \<Rightarrow> (error + unit) \<times> folder" where
  "assign_labels [] f = (Inr (), f)"
| "assign_labels ((u, l) # ls) f =
     (if \<not> uidexists f u then (Inl (KeyError u), f)
      else assign_labels ls
        (f\<lparr>messagelist := modify u (\<lambda>m. m\<lparr>msg_labels := l\<rparr>) (messagelist f)\<rparr>))"

text \<open>\<^verbatim>\<open>savemessageslabelsbulk\<close>; the dictionary is the list of its items.\<close>

definition savemessageslabelsbulk :: "(int \<times> string set) list \<Rightarrow> state \<Rightarrow> unit result" where
  "savemessageslabelsbulk labels s =
     (case sql_write (RunMany (map (\<lambda>(u, l). UPDATE_labels (labels_str l) u) labels)) s of
        None \<Rightarrow> None
      | Some (Inl e, s') \<Rightarrow> Some (Inl e, s')
      | Some (Inr _, (f', w')) \<Rightarrow>
          (case assign_labels labels f' of (r, f'') \<Rightarrow> Some (r, (f'', w'))))"

text \<open>
  \<^verbatim>\<open>for uid in uidlist: del(self.messagelist[uid])\<close>: \<^verbatim>\<open>del\<close> raises \<^verbatim>\<open>KeyError\<close> for a
  key that is not in the dictionary.
\<close>

fun del_items :: "int list \<Rightarrow> folder \<Rightarrow> (error + unit) \<times> folder" where
  "del_items [] f = (Inr (), f)"
| "del_items (u # us) f =
     (if \<not> uidexists f u then (Inl (KeyError u), f)
      else del_items us (f\<lparr>messagelist := AList.delete u (messagelist f)\<rparr>))"

text \<open>\<^verbatim>\<open>deletemessage\<close>\<close>

definition deletemessage :: "int \<Rightarrow> state \<Rightarrow> unit result" where
  "deletemessage u s =
     (case s of (f, w) \<Rightarrow>
      if \<not> uidexists f u then Some (Inr (), (f, w))
      else
        (case sql_write (Run (DELETE_status u)) (f, w) of
           None \<Rightarrow> None
         | Some (Inl e, s') \<Rightarrow> Some (Inl e, s')
         | Some (Inr _, (f', w')) \<Rightarrow>
             (case del_items [u] f' of (r, f'') \<Rightarrow> Some (r, (f'', w')))))"

text \<open>\<^verbatim>\<open>deletemessages\<close>\<close>

definition deletemessages :: "int list \<Rightarrow> state \<Rightarrow> unit result" where
  "deletemessages uidlist s =
     (case s of (f, w) \<Rightarrow>
      (let uidlist' = filter (uidexists f) uidlist in
       if length uidlist' = 0 then Some (Inr (), (f, w))
       else
         (case sql_write (RunMany (map DELETE_status uidlist')) (f, w) of
            None \<Rightarrow> None
          | Some (Inl e, s') \<Rightarrow> Some (Inl e, s')
          | Some (Inr _, (f', w')) \<Rightarrow>
              (case del_items uidlist' f' of (r, f'') \<Rightarrow> Some (r, (f'', w'))))))"

text \<open>
  The loop of \<^verbatim>\<open>cachemessagelist\<close> over the rows selected: a row whose flags are NULL
  raises, with the rows before it loaded.
\<close>

fun load_rows ::
  "(int \<times> row) list \<Rightarrow> (int \<times> message) list \<Rightarrow> (error + unit) \<times> (int \<times> message) list" where
  "load_rows [] ml = (Inr (), ml)"
| "load_rows ((u, r) # rs) ml =
     (let ml1 = AList.update u (msglist_item_initializer u) ml in
      case parse_flags (col_flags r) of
        Inl e \<Rightarrow> (Inl e, ml1)
      | Inr fl \<Rightarrow>
          load_rows rs
            (modify u (\<lambda>m. m\<lparr>msg_flags := fl, msg_labels := parse_labels (col_labels r),
               msg_mtime := col_mtime r\<rparr>) ml1))"

text \<open>\<^verbatim>\<open>SELECT id,flags,mtime,labels from status\<close>\<close>

definition select_status :: "conn \<Rightarrow> world \<Rightarrow> (error + (int \<times> row) list) \<times> world" where
  "select_status c w =
     (case begin_call c Select_status w of
        (Some e, w') \<Rightarrow> (Inl e, w')
      | (None, w') \<Rightarrow>
          (case status (file_db w' (path c)) of
             None \<Rightarrow> (Inl (no_such_table ''status''), w')
           | Some t \<Rightarrow>
               if \<not> has_columns t [''id'', ''flags'', ''mtime'', ''labels'']
               then (Inl (no_such_column
                 (missing_column t [''id'', ''flags'', ''mtime'', ''labels''])), w')
               else (Inr (rows t), w')))"

text \<open>
  \<^verbatim>\<open>cachemessagelist\<close>. Modelled from the spec: \<^verbatim>\<open>dropmessagelistcache\<close> is a method of
  \<^verbatim>\<open>BaseFolder\<close>, whose file is not among the sources; by the spec loading "clears the
  mirror", so it empties the message list.
\<close>

definition cachemessagelist :: "state \<Rightarrow> (error + unit) \<times> state" where
  "cachemessagelist s =
     (case s of (f, w) \<Rightarrow>
      (let f0 = f\<lparr>messagelist := []\<rparr> in
       case connection f0 of
         None \<Rightarrow> (Inl AttributeError, (f0, w))
       | Some c \<Rightarrow>
           (case select_status c w of
              (Inl e, w') \<Rightarrow> (Inl e, (f0, w'))
            | (Inr rs, w') \<Rightarrow>
                (case load_rows rs (messagelist f0) of
                   (r, ml) \<Rightarrow> (r, (f0\<lparr>messagelist := ml\<rparr>, w'))))))"

text \<open>
  \<^verbatim>\<open>saveall\<close>: it takes the lock and, holding it, calls \<^verbatim>\<open>__sql_write\<close>, which takes
  the lock.
\<close>

definition saveall :: "state \<Rightarrow> unit result" where
  "saveall s =
     (case s of (f, w) \<Rightarrow>
      (case acquire (filename f) w of
         None \<Rightarrow> None
       | Some w1 \<Rightarrow>
           (case sql_write
                  (RunMany (map (\<lambda>(u, m). INSERT_OR_REPLACE_status u (flags_str (msg_flags m))
                     (msg_mtime m) (labels_str (msg_labels m))) (messagelist f)))
                  (f, w1) of
              None \<Rightarrow> None
            | Some (r, (f', w')) \<Rightarrow> Some (r, (f', release (filename f) w')))))"

subsection \<open>Opening and closing\<close>

text \<open>
  \<^verbatim>\<open>int(s)\<close> for a string: white space around, a sign, decimal digits (the underscores
  that Python 3.6 accepts between digits are not read).
\<close>

definition is_digit :: "char \<Rightarrow> bool" where
  "is_digit c = (48 \<le> (of_char c :: nat) \<and> (of_char c :: nat) \<le> 57)"

definition digits_value :: "string \<Rightarrow> int" where
  "digits_value ds = foldl (\<lambda>n c. 10 * n + (int (of_char c) - 48)) 0 ds"

definition py_int :: "string \<Rightarrow> int option" where
  "py_int s =
     (let t = strip s;
          neg = (t \<noteq> [] \<and> hd t = CHR ''-'');
          ds = (if t \<noteq> [] \<and> (hd t = CHR ''-'' \<or> hd t = CHR ''+'') then tl t else t)
      in if ds \<noteq> [] \<and> list_all is_digit ds
         then Some (if neg then - digits_value ds else digits_value ds)
         else None)"

text \<open>
  \<^verbatim>\<open>SELECT value from metadata WHERE key='db_version'\<close> and \<^verbatim>\<open>cursor.fetchone()\<close>: the
  value, or \<open>None\<close> when no row has the key.
\<close>

definition select_db_version :: "conn \<Rightarrow> world \<Rightarrow> (error + string option) \<times> world" where
  "select_db_version c w =
     (case begin_call c Select_db_version w of
        (Some e, w') \<Rightarrow> (Inl e, w')
      | (None, w') \<Rightarrow>
          (case metadata (file_db w' (path c)) of
             None \<Rightarrow> (Inl (no_such_table ''metadata''), w')
           | Some m \<Rightarrow> (Inr (map_of m ''db_version''), w')))"

text \<open>A script and the \<^verbatim>\<open>commit\<close> after it, on \<^verbatim>\<open>self.connection\<close>.\<close>

definition script_and_commit :: "script_stmt list \<Rightarrow> state \<Rightarrow> (error + unit) \<times> state" where
  "script_and_commit ss s =
     (case s of (f, w) \<Rightarrow>
      (case connection f of
         None \<Rightarrow> (Inl AttributeError, (f, w))
       | Some c \<Rightarrow>
           (case conn_executescript c ss w of
              (Some e, w1) \<Rightarrow> (Inl e, (f, w1))
            | (None, w1) \<Rightarrow>
                (case conn_commit c w1 of
                   (Some e, w2) \<Rightarrow> (Inl e, (f, w2))
                 | (None, w2) \<Rightarrow> (Inr (), (f, w2))))))"

text \<open>\<^verbatim>\<open>__create_db\<close>\<close>

definition create_db :: "state \<Rightarrow> (error + unit) \<times> state" where
  "create_db s =
     (case script_and_commit
         [CREATE_TABLE_metadata, INSERT_metadata ''db_version'' ''2'', CREATE_TABLE_status] s of
        (Inl e, s') \<Rightarrow> (Inl e, s')
      | (Inr _, (f', w')) \<Rightarrow> (Inr (), (f'\<lparr>newfolder := True\<rparr>, w')))"

text \<open>\<^verbatim>\<open>__upgrade_db\<close>\<close>

definition upgrade_db :: "int \<Rightarrow> state \<Rightarrow> (error + unit) \<times> state" where
  "upgrade_db from_ver s =
     (case s of (f, w) \<Rightarrow>
      (let (f1, w1) =
             (case connection f of
                None \<Rightarrow> (f, w)
              | Some c \<Rightarrow> (case conn_close c w of (c', w') \<Rightarrow> (f\<lparr>connection := Some c'\<rparr>, w')))
       in case connect (filename f1) w1 of
            (Inl e, w2) \<Rightarrow> (Inl e, (f1, w2))
          | (Inr c, w2) \<Rightarrow>
              if from_ver \<le> 1 then
                script_and_commit
                  [ALTER_status_ADD_mtime, ALTER_status_ADD_labels,
                   UPDATE_metadata ''db_version'' ''2'']
                  (f1\<lparr>connection := Some c\<rparr>, w2)
              else (Inr (), (f1\<lparr>connection := Some c\<rparr>, w2))))"

definition cur_version :: int where
  "cur_version = 2"

text \<open>The part of \<^verbatim>\<open>openfiles\<close> under the lock.\<close>

definition openfiles_locked :: "state \<Rightarrow> (error + unit) \<times> state" where
  "openfiles_locked s =
     (case s of (f, w) \<Rightarrow>
      (case connect (filename f) w of
         (Inl e, w1) \<Rightarrow>
           ((case e of OperationalError m \<Rightarrow> Inl (UserWarning e) | _ \<Rightarrow> Inl e), (f, w1))
       | (Inr c, w1) \<Rightarrow>
           (let f1 = f\<lparr>connection := Some c\<rparr>;
                w2 = w1\<lparr>locks := (locks w1)(filename f := registerNewUser (locks w1 (filename f)))\<rparr>
            in case select_db_version c w2 of
                 (Inl e, w3) \<Rightarrow>
                   if is_DatabaseError e then create_db (f1, w3) else (Inl e, (f1, w3))
               | (Inr None, w3) \<Rightarrow> (Inl TypeError, (f1, w3))
               | (Inr (Some v), w3) \<Rightarrow>
                   (case py_int v of
                      None \<Rightarrow> (Inl ValueError, (f1, w3))
                    | Some version \<Rightarrow>
                        if version < cur_version then upgrade_db version (f1, w3)
                        else (Inr (), (f1, w3))))))"

text \<open>\<^verbatim>\<open>openfiles\<close>\<close>

definition openfiles :: "state \<Rightarrow> unit result" where
  "openfiles s =
     (case s of (f, w) \<Rightarrow>
      if threadsafety w \<noteq> 1 then Some (Inl AssertionError, (f, w))
      else
        (case acquire (filename f) w of
           None \<Rightarrow> None
         | Some w1 \<Rightarrow>
             (case openfiles_locked (f, w1) of
                (r, (f', w')) \<Rightarrow> Some (r, (f', release (filename f) w')))))"

text \<open>\<^verbatim>\<open>closefiles\<close>: whatever \<^verbatim>\<open>close\<close> raises is dropped.\<close>

definition closefiles :: "state \<Rightarrow> unit result" where
  "closefiles s =
     (case s of (f, w) \<Rightarrow>
      (case acquire (filename f) w of
         None \<Rightarrow> None
       | Some w1 \<Rightarrow>
           (let w2 = w1\<lparr>locks := (locks w1)(filename f := removeOneUser (locks w1 (filename f)))\<rparr>
            in if shouldClose (locks w2 (filename f)) then
                 (case connection f of
                    None \<Rightarrow> Some (Inr (), (f, release (filename f) w2))
                  | Some c \<Rightarrow>
                      (case conn_close c w2 of
                         (c', w3) \<Rightarrow>
                           Some (Inr (), (f\<lparr>connection := Some c'\<rparr>, release (filename f) w3))))
               else Some (Inr (), (f, release (filename f) w2)))))"

subsection \<open>Notions and examples for the properties\<close>

text \<open>No call fails for a reason outside the statements themselves.\<close>

definition quiet :: "world \<Rightarrow> bool" where
  "quiet w = (\<forall>n. faults w n = None)"

text \<open>
  The folder has its connection open on its file, nobody holds the lock of the file, and
  the world is quiet.
\<close>

definition ready :: "state \<Rightarrow> bool" where
  "ready s =
     (case s of (f, w) \<Rightarrow>
        \<not> held (locks w (filename f)) \<and>
        connection f = Some \<lparr>path = filename f, closed = False\<rparr> \<and> quiet w)"

text \<open>
  The state after \<^verbatim>\<open>__sql_write\<close> has run a request once, leaving the folder's database as
  \<open>db\<close>, and has committed if no transaction scope is open.
\<close>

definition wrote :: "request \<Rightarrow> database \<Rightarrow> state \<Rightarrow> state" where
  "wrote rq db s =
     (case s of (f, w) \<Rightarrow>
        (f, w\<lparr>files := AList.update (filename f) db (files w),
             tick := tick w + (if in_transactions f = 0 then 2 else 1),
             calls := calls w @ (filename f, call_of rq) #
               (if in_transactions f = 0 then [(filename f, Commit)] else [])\<rparr>))"

text \<open>The database of the folder's file, and its table of messages.\<close>

definition store :: "state \<Rightarrow> database" where
  "store s = file_db (snd s) (filename (fst s))"

definition store_rows :: "state \<Rightarrow> (int \<times> row) list" where
  "store_rows s = (case status (store s) of None \<Rightarrow> [] | Some t \<Rightarrow> rows t)"

text \<open>The table \<^verbatim>\<open>status\<close> exists with the columns of version 2.\<close>

definition current_schema :: "database \<Rightarrow> bool" where
  "current_schema db =
     (case status db of
        None \<Rightarrow> False
      | Some t \<Rightarrow> has_columns t [''id'', ''flags'', ''mtime'', ''labels''])"

text \<open>A database with the rows of its table \<^verbatim>\<open>status\<close> changed by \<open>g\<close>.\<close>

definition map_rows :: "((int \<times> row) list \<Rightarrow> (int \<times> row) list) \<Rightarrow> database \<Rightarrow> database" where
  "map_rows g db = db\<lparr>status := map_option (\<lambda>t. t\<lparr>rows := g (rows t)\<rparr>) (status db)\<rparr>"

text \<open>
  From \<open>s\<close> to \<open>s'\<close> the only calls made on connections were the request \<open>rq\<close> and
  \<^verbatim>\<open>commit\<close>.
\<close>

definition issued :: "request \<Rightarrow> state \<Rightarrow> state \<Rightarrow> bool" where
  "issued rq s s' =
     (\<exists>ks. calls (snd s') = calls (snd s) @ ks \<and>
        list_all (\<lambda>k. snd k = call_of rq \<or> snd k = Commit) ks)"

definition round_state :: "round \<Rightarrow> state" where
  "round_state rd = (case rd of Again s \<Rightarrow> s | Finished r s \<Rightarrow> s)"

text \<open>An example: a folder with one message, open on a file of version 2.\<close>

definition example_db :: database where
  "example_db =
     \<lparr>metadata = Some [(''db_version'', ''2'')],
      status = Some \<lparr>columns = [''id'', ''flags'', ''mtime'', ''labels''],
        rows = [(5, \<lparr>col_flags = Some ''S'', col_mtime = Some 7, col_labels = Some ''Work''\<rparr>)]\<rparr>\<rparr>"

definition example_world :: world where
  "example_world =
     \<lparr>files = [(''INBOX'', example_db)], locks = (\<lambda>_. \<lparr>held = False, counter = 1\<rparr>),
      faults = (\<lambda>_. None), tick = 0, calls = [], threadsafety = 1\<rparr>"

definition example_folder :: folder where
  "example_folder =
     \<lparr>filename = ''INBOX'', newfolder = False,
      connection = Some \<lparr>path = ''INBOX'', closed = False\<rparr>, in_transactions = 0,
      messagelist = [(5, \<lparr>msg_uid = 5, msg_flags = {CHR ''S''}, msg_labels = {''Work''},
        msg_time = 0, msg_mtime = Some 7\<rparr>)],
      dofsync = False\<rparr>"

text \<open>
  A sequence of entries to and exits from the transaction scope; an \<^verbatim>\<open>__enter__\<close> or
  \<^verbatim>\<open>__exit__\<close> that raises leaves the state it reached.
\<close>

datatype scope_op = Enter | Exit

fun scope_step :: "scope_op \<Rightarrow> state \<Rightarrow> state" where
  "scope_step Enter (f, w) = (case enter f of Inl e \<Rightarrow> (f, w) | Inr f' \<Rightarrow> (f', w))"
| "scope_step Exit (f, w) = snd (exit (f, w))"

text \<open>The folder can use its connection \<open>c\<close>: it is open, and nobody holds the lock of the file.\<close>

definition usable :: "state \<Rightarrow> conn \<Rightarrow> bool" where
  "usable s c = (case s of (f, w) \<Rightarrow>
     \<not> held (locks w (filename f)) \<and> connection f = Some c \<and> \<not> closed c)"

text \<open>The world after one more call on a connection: counted and logged.\<close>

definition called :: "conn \<Rightarrow> call \<Rightarrow> world \<Rightarrow> world" where
  "called c k w = w\<lparr>tick := Suc (tick w), calls := calls w @ [(path c, k)]\<rparr>"

text \<open>From now on every call finds the database locked.\<close>

definition locked_from :: "world \<Rightarrow> bool" where
  "locked_from w = (\<forall>n. faults w (tick w + n) = Some ''database is locked'')"

text \<open>The connection of the example, a request on it and the database the request leaves.\<close>

definition example_conn :: conn where
  "example_conn = \<lparr>path = ''INBOX'', closed = False\<rparr>"

definition example_request :: request where
  "example_request = Run (UPDATE_flags ''T'' 5)"

definition example_updated :: database where
  "example_updated = map_rows (modify 5 (\<lambda>r. r\<lparr>col_flags := Some ''T''\<rparr>)) example_db"

text \<open>
  The example world where the call number \<open>n\<close> fails with message \<open>m\<close>, and the one where
  every call finds the database locked.
\<close>

definition fault_at :: "nat \<Rightarrow> string \<Rightarrow> world" where
  "fault_at n m = example_world\<lparr>faults := (\<lambda>k. if k = n then Some m else None)\<rparr>"

definition always_locked :: world where
  "always_locked = example_world\<lparr>faults := (\<lambda>k. Some ''database is locked'')\<rparr>"

text \<open>The database after the script of \<^verbatim>\<open>__upgrade_db\<close> from version 1.\<close>

definition upgraded :: "database \<Rightarrow> database" where
  "upgraded db =
     \<lparr>metadata = map_option (modify ''db_version'' (\<lambda>_. ''2'')) (metadata db),
      status = map_option (\<lambda>t. \<lparr>columns = columns t @ [''mtime'', ''labels''],
        rows = map (\<lambda>(i, r). (i, r\<lparr>col_mtime := Some 0, col_labels := Some []\<rparr>)) (rows t)\<rparr>)
        (status db)\<rparr>"

text \<open>
  A folder that has not been opened, and a world where no folder has been: every lock is
  new.
\<close>

definition unopened_folder :: folder where
  "unopened_folder = example_folder\<lparr>connection := None, messagelist := []\<rparr>"

definition fresh_world :: world where
  "fresh_world = example_world\<lparr>locks := (\<lambda>_. new_lock)\<rparr>"

text \<open>A file of version 1: the table \<^verbatim>\<open>status\<close> has the columns \<^verbatim>\<open>id\<close> and \<^verbatim>\<open>flags\<close> only.\<close>

definition version_1_db :: database where
  "version_1_db =
     \<lparr>metadata = Some [(''db_version'', ''1'')],
      status = Some \<lparr>columns = [''id'', ''flags''],
        rows = [(5, \<lparr>col_flags = Some ''S'', col_mtime = None, col_labels = None\<rparr>)]\<rparr>\<rparr>"

definition version_1_world :: world where
  "version_1_world = fresh_world\<lparr>files := [(''INBOX'', version_1_db)]\<rparr>"

text \<open>
  \<^verbatim>\<open>savemessagelabels(uid, labels)\<close> called for every item of a list in turn, as far as the
  calls return normally.
\<close>

fun savemessagelabels_each :: "(int \<times> string set) list \<Rightarrow> state \<Rightarrow> unit result" where
  "savemessagelabels_each [] s = Some (Inr (), s)"
| "savemessagelabels_each ((u, l) # ls) s =
     (case savemessagelabels u l None s of
        None \<Rightarrow> None
      | Some (Inl e, s') \<Rightarrow> Some (Inl e, s')
      | Some (Inr _, s') \<Rightarrow> savemessagelabels_each ls s')"

text \<open>
  What one item of the dictionary of \<^verbatim>\<open>savemessageslabelsbulk\<close> does to the message list and to
  the rows of the table.
\<close>

definition relabel :: "int \<times> string set \<Rightarrow> (int \<times> message) list \<Rightarrow> (int \<times> message) list" where
  "relabel kv = (case kv of (u, l) \<Rightarrow> modify u (\<lambda>m. m\<lparr>msg_labels := l\<rparr>))"

definition relabel_row :: "int \<times> string set \<Rightarrow> (int \<times> row) list \<Rightarrow> (int \<times> row) list" where
  "relabel_row kv = (case kv of (u, l) \<Rightarrow> modify u (\<lambda>r. r\<lparr>col_labels := Some (labels_str l)\<rparr>))"

text \<open>
  The example with a second message, uid 6.
\<close>

definition pair_folder :: folder where
  "pair_folder = example_folder\<lparr>messagelist := messagelist example_folder @
     [(6, \<lparr>msg_uid = 6, msg_flags = {}, msg_labels = {}, msg_time = 0, msg_mtime = Some 0\<rparr>)]\<rparr>"

definition pair_world :: world where
  "pair_world = example_world\<lparr>files := [(''INBOX'', map_rows (\<lambda>rs. rs @
     [(6, \<lparr>col_flags = Some [], col_mtime = Some 0, col_labels = Some []\<rparr>)]) example_db)]\<rparr>"

text \<open>
  A label that the stored form keeps apart: not empty, without a comma, and with no white
  space at either end.
\<close>

definition plain_label :: "string \<Rightarrow> bool" where
  "plain_label l = (l \<noteq> [] \<and> CHR '','' \<notin> set l \<and> \<not> is_space (hd l) \<and> \<not> is_space (last l))"

text \<open>
  \<^verbatim>\<open>savemessage\<close> and then \<^verbatim>\<open>cachemessagelist\<close>: the state reached when both return
  normally.
\<close>

definition save_and_reload ::
  "int \<Rightarrow> string \<Rightarrow> char set \<Rightarrow> int \<Rightarrow> int \<Rightarrow> string set \<Rightarrow> state \<Rightarrow> state option" where
  "save_and_reload u content fl rtime mt lb s =
     (case savemessage u content fl rtime mt lb s of
        Some (Inr _, s1) \<Rightarrow> (case cachemessagelist s1 of (Inr _, s2) \<Rightarrow> Some s2 | _ \<Rightarrow> None)
      | _ \<Rightarrow> None)"

text \<open>
  A table holding a row whose id is negative, and the folder of the example after it has
  loaded that table.
\<close>

definition stray_db :: database where
  "stray_db =
     \<lparr>metadata = Some [(''db_version'', ''2'')],
      status = Some \<lparr>columns = [''id'', ''flags'', ''mtime'', ''labels''],
        rows = [(-1, \<lparr>col_flags = Some ''S'', col_mtime = Some 0, col_labels = Some []\<rparr>)]\<rparr>\<rparr>"

definition stray_world :: world where
  "stray_world = example_world\<lparr>files := [(''INBOX'', stray_db)]\<rparr>"

definition stray_folder :: folder where
  "stray_folder = example_folder\<lparr>messagelist :=
     [(-1, \<lparr>msg_uid = -1, msg_flags = {CHR ''S''}, msg_labels = {}, msg_time = 0,
        msg_mtime = Some 0\<rparr>)]\<rparr>"

section \<open>Properties\<close>

subsection \<open>The write executor when nothing interferes\<close>

lemma unheld_triv: "\<not> held l \<Longrightarrow> l\<lparr>held := False\<rparr> = l"
  by simp

lemma conn_run_call: "conn_run c rq w = conn_call c (call_of rq) (run_db rq) w"
  by (cases rq) (simp_all add: conn_execute_def conn_executemany_def conn_call_def
      split: prod.splits option.splits)

lemma sql_write_round_ready:
  assumes "ready (f, w)" and "run_db rq (file_db w (filename f)) = (None, db)"
  shows "sql_write_round rq (f, w) = Some (Finished (Inr ()) (wrote rq db (f, w)))"
  using assms
  by (simp add: sql_write_round_def ready_def quiet_def acquire_def release_def conn_run_call
      conn_call_def begin_call_def conn_commit_def file_db_def set_file_def wrote_def
      unheld_triv split: option.splits)

lemma sql_write_ready:
  assumes "ready s" and "fst (run_db rq (store s)) = None"
  shows "sql_write rq s = Some (Inr (), wrote rq (snd (run_db rq (store s))) s)"
proof -
  obtain f w where s: "s = (f, w)"
    by (cases s)
  have "run_db rq (file_db w (filename f)) = (None, snd (run_db rq (store s)))"
    using assms(2) by (simp add: s store_def prod_eq_iff)
  with assms(1) show ?thesis
    unfolding s by (subst sql_write.simps) (simp add: sql_write_round_ready)
qed

lemma ready_wrote: "ready (wrote rq db s) = ready s"
  by (cases s) (simp add: ready_def wrote_def quiet_def)

lemma store_wrote: "store (wrote rq db s) = db"
  by (cases s) (simp add: store_def wrote_def file_db_def update_conv')

lemma ready_example: "ready (example_folder, example_world)"
  by (simp add: ready_def example_folder_def example_world_def quiet_def)

lemma ready_messagelist [simp]: "ready (f\<lparr>messagelist := ml\<rparr>, w) = ready (f, w)"
  by (simp add: ready_def)

lemma store_messagelist [simp]: "store (f\<lparr>messagelist := ml\<rparr>, w) = store (f, w)"
  by (simp add: store_def)

lemma current_schema_map_rows [simp]: "current_schema (map_rows g db) = current_schema db"
  by (simp add: current_schema_def map_rows_def has_columns_def split: option.splits)

lemma status_map_rows:
  "status (map_rows g db) = map_option (\<lambda>t. t\<lparr>rows := g (rows t)\<rparr>) (status db)"
  by (simp add: map_rows_def)

lemma map_rows_comp: "map_rows g (map_rows h db) = map_rows (g \<circ> h) db"
  by (cases "status db") (simp_all add: map_rows_def)

lemma exec_update_flags:
  "current_schema db \<Longrightarrow>
   exec_stmt (UPDATE_flags fl u) db = Inr (map_rows (modify u (\<lambda>r. r\<lparr>col_flags := Some fl\<rparr>)) db)"
  by (auto simp: current_schema_def on_status_def has_columns_def map_rows_def split: option.splits)

lemma exec_update_labels:
  "current_schema db \<Longrightarrow>
   exec_stmt (UPDATE_labels lb u) db = Inr (map_rows (modify u (\<lambda>r. r\<lparr>col_labels := Some lb\<rparr>)) db)"
  by (auto simp: current_schema_def on_status_def has_columns_def map_rows_def split: option.splits)

lemma exec_update_labels_mtime:
  "current_schema db \<Longrightarrow>
   exec_stmt (UPDATE_labels_mtime lb t u) db =
     Inr (map_rows (modify u (\<lambda>r. r\<lparr>col_labels := Some lb, col_mtime := Some t\<rparr>)) db)"
  by (auto simp: current_schema_def on_status_def has_columns_def map_rows_def split: option.splits)

lemma exec_delete:
  "current_schema db \<Longrightarrow> exec_stmt (DELETE_status u) db = Inr (map_rows (AList.delete u) db)"
  by (auto simp: current_schema_def on_status_def has_columns_def map_rows_def split: option.splits)

lemma exec_insert:
  "current_schema db \<Longrightarrow> u \<notin> fst ` set (case status db of None \<Rightarrow> [] | Some t \<Rightarrow> rows t) \<Longrightarrow>
   exec_stmt (INSERT_status u fl mt lb) db =
     Inr (map_rows (\<lambda>rs. rs @ [(u, \<lparr>col_flags = Some fl, col_mtime = mt, col_labels = Some lb\<rparr>)]) db)"
  by (auto simp: current_schema_def on_status_def has_columns_def map_rows_def split: option.splits)

declare exec_stmt.simps [simp del]

lemma savemessageflags_ready:
  assumes "ready (f, w)" "uidexists f u" "current_schema (store (f, w))"
  shows "savemessageflags u fl (f, w) =
     Some (Inr (), wrote (Run (UPDATE_flags (flags_str fl) u))
       (map_rows (modify u (\<lambda>r. r\<lparr>col_flags := Some (flags_str fl)\<rparr>)) (store (f, w)))
       (f\<lparr>messagelist := modify u (\<lambda>m. m\<lparr>msg_flags := fl\<rparr>) (messagelist f)\<rparr>, w))"
  using assms
  by (simp add: savemessageflags_def sql_write_ready exec_one_def exec_update_flags)

lemma savemessage_existing:
  assumes "0 \<le> u" "uidexists f u"
  shows "savemessage u content fl rtime mt lb (f, w) =
     map_option (\<lambda>(r, s'). (map_sum (\<lambda>e. e) (\<lambda>_. u) r, s')) (savemessageflags u fl (f, w))"
  using assms
  by (auto simp: savemessage_def split: option.splits sum.splits prod.splits)

lemma savemessagelabels_zero:
  "savemessagelabels u lb (Some 0) s = savemessagelabels u lb None s"
  by (simp add: savemessagelabels_def split: prod.splits)

lemma savemessagelabels_plain_ready:
  assumes "ready (f, w)" "uidexists f u" "current_schema (store (f, w))"
  shows "savemessagelabels u lb None (f, w) =
     Some (Inr (), wrote (Run (UPDATE_labels (labels_str lb) u))
       (map_rows (modify u (\<lambda>r. r\<lparr>col_labels := Some (labels_str lb)\<rparr>)) (store (f, w)))
       (f\<lparr>messagelist := modify u (\<lambda>m. m\<lparr>msg_labels := lb\<rparr>) (messagelist f)\<rparr>, w))"
  using assms
  by (simp add: savemessagelabels_def sql_write_ready exec_one_def exec_update_labels)

lemma modify_modify: "modify u g (modify u h al) = modify u (g \<circ> h) al"
  by (induction al) (auto simp: modify_def)

lemma savemessagelabels_mtime_ready:
  assumes "ready (f, w)" "uidexists f u" "current_schema (store (f, w))" "t \<noteq> 0"
  shows "savemessagelabels u lb (Some t) (f, w) =
     Some (Inr (), wrote (Run (UPDATE_labels_mtime (labels_str lb) t u))
       (map_rows (modify u (\<lambda>r. r\<lparr>col_labels := Some (labels_str lb), col_mtime := Some t\<rparr>))
          (store (f, w)))
       (f\<lparr>messagelist := modify u (\<lambda>m. m\<lparr>msg_labels := lb, msg_mtime := Some t\<rparr>)
          (messagelist f)\<rparr>, w))"
  using assms
  by (simp add: savemessagelabels_def sql_write_ready exec_one_def exec_update_labels_mtime
      modify_modify comp_def)

lemma savemessage_new_ready:
  assumes "ready (f, w)" "0 \<le> u" "\<not> uidexists f u" "current_schema (store (f, w))"
    "u \<notin> fst ` set (store_rows (f, w))"
  shows "savemessage u content fl rtime mt lb (f, w) =
     Some (Inr u, wrote (Run (INSERT_status u (flags_str fl) (Some mt) (labels_str lb)))
       (map_rows (\<lambda>rs. rs @ [(u, \<lparr>col_flags = Some (flags_str fl), col_mtime = Some mt,
          col_labels = Some (labels_str lb)\<rparr>)]) (store (f, w)))
       (f\<lparr>messagelist := AList.update u \<lparr>msg_uid = u, msg_flags = fl, msg_labels = lb,
          msg_time = rtime, msg_mtime = Some mt\<rparr> (messagelist f)\<rparr>, w))"
  using assms
  by (simp add: savemessage_def sql_write_ready exec_one_def exec_insert store_rows_def)

lemma current_schema_example: "current_schema (store (example_folder, example_world))"
  by (simp add: current_schema_def store_def file_db_def example_folder_def example_world_def
      example_db_def has_columns_def)

lemma store_rows_example: "store_rows (example_folder, example_world) =
   [(5, \<lparr>col_flags = Some ''S'', col_mtime = Some 7, col_labels = Some ''Work''\<rparr>)]"
  by (simp add: store_rows_def store_def file_db_def example_folder_def example_world_def
      example_db_def)

text \<open>What changing the entries of a key does, written out.\<close>

lemma modify_map: "modify u g = map (\<lambda>(k, v). (k, if k = u then g v else v))"
proof
  fix al :: "('a \<times> 'b) list"
  show "modify u g al = map (\<lambda>(k, v). (k, if k = u then g v else v)) al"
    by (induction al) (auto simp: modify_def)
qed

lemma calls_wrote:
  "calls (snd (wrote rq db (f, w))) =
     calls w @ (filename f, call_of rq) # (if in_transactions f = 0 then [(filename f, Commit)] else [])"
  by (simp add: wrote_def)

lemma store_example: "store (example_folder, example_world) = example_db"
  by (simp add: store_def file_db_def example_folder_def example_world_def)

lemma map_keeps:
  "(\<And>v. h (g v) = h v) \<Longrightarrow>
   map (\<lambda>(k, v). h v) (map (\<lambda>(k, v). (k, if k = u then g v else v)) al) = map (\<lambda>(k, v). h v) al"
  by (induction al) auto

lemma flags_str_T: "flags_str {CHR ''T''} = ''T''"
  by (simp add: flags_str_def)

lemma labels_str_Home: "labels_str {''Home''} = ''Home''"
  by (simp add: labels_str_def)


subsection \<open>The calls that the write executor makes\<close>

lemma begin_call_calls:
  "begin_call c k w = (r, w') \<Longrightarrow> calls w' = calls w @ [(path c, k)]"
  by (auto simp: begin_call_def Let_def split: if_splits option.splits)

lemma conn_call_calls:
  "conn_call c k g w = (r, w') \<Longrightarrow> calls w' = calls w @ [(path c, k)]"
  by (auto simp: conn_call_def set_file_def split: prod.splits option.splits dest!: begin_call_calls)

lemma handler_state:
  "handler b e s = Again s' \<Longrightarrow> s' = s"
  "handler b e s = Finished r s' \<Longrightarrow> s' = s"
  by (auto simp: handler_def split: error.splits if_splits)

lemma acquire_calls: "acquire p w = Some w' \<Longrightarrow> calls w' = calls w"
  by (auto simp: acquire_def split: if_splits)

lemma release_calls [simp]: "calls (release p w) = calls w"
  by (simp add: release_def)

lemma issued_refl: "issued rq s s"
  by (simp add: issued_def)

lemma issued_trans: "issued rq s s' \<Longrightarrow> issued rq s' s'' \<Longrightarrow> issued rq s s''"
  by (auto simp: issued_def)

lemma round_state_handler [simp]: "round_state (handler b e s) = s"
  by (auto simp: round_state_def handler_def split: error.splits round.splits)

lemma sql_write_round_issued:
  assumes "sql_write_round rq s = Some rd"
  shows "issued rq s (round_state rd)"
proof -
  obtain f w where s: "s = (f, w)" by (cases s)
  from assms obtain w1 where w1: "acquire (filename f) w = Some w1"
    by (auto simp: sql_write_round_def s split: option.splits)
  have c1: "calls w1 = calls w"
    using w1 by (rule acquire_calls)
  show ?thesis
  proof (cases "connection f")
    case None
    with assms w1 c1 show ?thesis
      by (auto simp: sql_write_round_def s issued_def round_state_def)
  next
    case (Some c)
    obtain r2 w2 where r2: "conn_run c rq w1 = (r2, w2)"
      by (cases "conn_run c rq w1")
    then have c2: "calls w2 = calls w @ [(path c, call_of rq)]"
      using c1 by (auto simp: conn_run_call dest: conn_call_calls)
    obtain r3 w3 where r3: "conn_commit c w2 = (r3, w3)"
      by (cases "conn_commit c w2")
    then have c3: "calls w3 = calls w @ [(path c, call_of rq), (path c, Commit)]"
      using c2 by (auto simp: conn_commit_def dest: begin_call_calls)
    from assms w1 Some r2 r3 c2 c3 show ?thesis
      by (auto simp: sql_write_round_def s issued_def round_state_def[of "Finished _ _"]
          split: option.splits if_splits)
  qed
qed

lemma sql_write_issued:
  assumes "sql_write rq s = Some y"
  shows "issued rq s (snd y)"
proof (rule sql_write.raw_induct[where P = "\<lambda>rq s y. issued rq s (snd y)", OF _ assms])
  fix sw rq s y
  assume IH: "\<And>rq s y. sw rq s = Some y \<Longrightarrow> issued rq s (snd y)"
    and step: "(case sql_write_round rq s of None \<Rightarrow> None | Some (Again s') \<Rightarrow> sw rq s'
       | Some (Finished r s') \<Rightarrow> Some (r, s')) = Some y"
  show "issued rq s (snd y)"
  proof (cases "sql_write_round rq s")
    case None
    with step show ?thesis by simp
  next
    case (Some rd)
    note rd = sql_write_round_issued[OF Some]
    show ?thesis
    proof (cases rd)
      case (Again s')
      with step Some have "sw rq s' = Some y" by simp
      from IH[OF this] rd Again show ?thesis
        by (auto simp: round_state_def intro: issued_trans)
    next
      case (Finished r s')
      with step Some rd show ?thesis
        by (auto simp: round_state_def)
    qed
  qed
qed

subsection \<open>Saving a message\<close>

text \<open>
  C1 (as amended): for every negative uid, \<^verbatim>\<open>savemessage\<close> returns the uid and changes
  neither the message list nor the database, nor anything else.
\<close>

theorem savemessage_negative_uid_noop:
  "u < 0 \<Longrightarrow> savemessage u content fl rtime mt lb (f, w) = Some (Inr u, (f, w))"
  by (simp add: savemessage_def)

theorem savemessage_uid_zero_counterexample:
  "savemessage 0 [] {} 0 0 {} (example_folder, example_world) \<noteq>
     Some (Inr 0, (example_folder, example_world))"
proof -
  have a: "\<not> uidexists example_folder 0"
    by (simp add: uidexists_def example_folder_def)
  have b: "0 \<notin> fst ` set (store_rows (example_folder, example_world))"
    by (simp add: store_rows_example)
  have c: "(0::int) \<le> 0"
    by simp
  show ?thesis
    unfolding savemessage_new_ready[OF ready_example c a current_schema_example b]
    by (simp add: wrote_def example_folder_def)
qed

theorem savemessage_negative_uid_noop_witness:
  "(-1::int) < 0 \<and> savemessage (-1) [] {} 0 0 {} (example_folder, example_world) =
     Some (Inr (-1), (example_folder, example_world))"
  using savemessage_negative_uid_noop[of "-1" "[]" "{}" 0 0 "{}" example_folder example_world]
  by simp

lemma issued_messagelist [simp]: "issued rq (f\<lparr>messagelist := ml\<rparr>, w) s' = issued rq (f, w) s'"
  by (simp add: issued_def)

lemma store_rows_wrote:
  "current_schema (store s) \<Longrightarrow>
   store_rows (wrote rq (map_rows g (store s)) s) = g (store_rows s)"
  by (auto simp: store_rows_def store_wrote current_schema_def map_rows_def split: option.splits)

lemma fst_wrote [simp]: "fst (wrote rq db s) = fst s"
  by (cases s) (simp add: wrote_def)

lemma store_rows_messagelist [simp]:
  "store_rows (f\<lparr>messagelist := ml\<rparr>, w) = store_rows (f, w)"
  by (simp add: store_rows_def)

lemma modify_keeps:
  "(\<And>v. h (g v) = h v) \<Longrightarrow> map (\<lambda>(k, v). h v) (modify u g al) = map (\<lambda>(k, v). h v) al"
  by (induction al) (auto simp: modify_def)

lemma sql_write_round_folder:
  assumes "sql_write_round rq s = Some rd"
  shows "fst (round_state rd) = fst s"
proof -
  obtain f w where s: "s = (f, w)" by (cases s)
  from assms show ?thesis
    unfolding s sql_write_round_def
    by (auto simp: round_state_def[of "Finished _ _"] split: option.splits prod.splits if_splits)
qed

lemma sql_write_folder:
  assumes "sql_write rq s = Some y"
  shows "fst (snd y) = fst s"
proof (rule sql_write.raw_induct[where P = "\<lambda>rq s y. fst (snd y) = fst s", OF _ assms])
  fix sw rq s y
  assume IH: "\<And>rq s y. sw rq s = Some y \<Longrightarrow> fst (snd y) = fst s"
    and step: "(case sql_write_round rq s of None \<Rightarrow> None | Some (Again s') \<Rightarrow> sw rq s'
       | Some (Finished r s') \<Rightarrow> Some (r, s')) = Some y"
  show "fst (snd y) = fst s"
  proof (cases "sql_write_round rq s")
    case None
    with step show ?thesis by simp
  next
    case (Some rd)
    note rd = sql_write_round_folder[OF Some]
    show ?thesis
    proof (cases rd)
      case (Again s')
      with step Some have "sw rq s' = Some y" by simp
      from IH[OF this] rd Again show ?thesis
        by (simp add: round_state_def)
    next
      case (Finished r s')
      with step Some rd show ?thesis
        by (auto simp: round_state_def)
    qed
  qed
qed

lemma keys_modify: "map fst (modify u g al) = map fst al"
  by (induction al) (auto simp: modify_def)

text \<open>
  \<^verbatim>\<open>savemessage\<close> adds no negative uid to the message list: where the uids are not negative
  they stay so.
\<close>

lemma savemessage_uids_not_negative:
  assumes "savemessage u content fl rtime mt lb (f, w) = Some (r, s')"
    and "list_all (\<lambda>k. 0 \<le> k) (map fst (messagelist f))"
  shows "list_all (\<lambda>k. 0 \<le> k) (map fst (messagelist (fst s')))"
proof (cases "u < 0")
  case True
  with assms show ?thesis
    by (auto simp: savemessage_def)
next
  case False
  show ?thesis
  proof (cases "uidexists f u")
    case True
    with assms(1) False obtain r' where
      "sql_write (Run (UPDATE_flags (flags_str fl) u))
        (f\<lparr>messagelist := modify u (\<lambda>m. m\<lparr>msg_flags := fl\<rparr>) (messagelist f)\<rparr>, w) = Some (r', s')"
      by (auto simp: savemessage_def savemessageflags_def split: option.splits sum.splits)
    from sql_write_folder[OF this] assms(2) show ?thesis
      by (simp add: keys_modify)
  next
    case no: False
    with assms(1) False obtain r' where
      "sql_write (Run (INSERT_status u (flags_str fl) (Some mt) (labels_str lb)))
        (f\<lparr>messagelist := AList.update u
            \<lparr>msg_uid = u, msg_flags = fl, msg_labels = lb, msg_time = rtime,
             msg_mtime = Some mt\<rparr> (messagelist f)\<rparr>, w) = Some (r', s')"
      by (auto simp: savemessage_def split: option.splits sum.splits)
    from sql_write_folder[OF this] assms(2) False show ?thesis
      by (simp add: update_keys)
  qed
qed

text \<open>
  C3 (as amended): for a uid that is not negative and is in the message list,
  \<^verbatim>\<open>savemessage\<close> is \<^verbatim>\<open>savemessageflags\<close> returning the uid: the two reach the same
  state, raise the same exceptions, and neither returns without the other. The only calls it
  makes on the connection are the \<^verbatim>\<open>UPDATE\<close> of the flags and \<^verbatim>\<open>commit\<close>, so no
  \<^verbatim>\<open>INSERT\<close>. When nothing interferes it returns the uid, and then every entry of the
  message list with that uid has the new flags, every row of the table with that id has
  them serialised, and nothing else has changed but the log of the calls.
\<close>

theorem savemessage_existing_uid:
  assumes "0 \<le> u" and "uidexists f u"
  shows "savemessage u content fl rtime mt lb (f, w) =
       map_option (\<lambda>(r, s'). (map_sum (\<lambda>e. e) (\<lambda>_. u) r, s')) (savemessageflags u fl (f, w))
     \<and> (\<forall>r s'. savemessage u content fl rtime mt lb (f, w) = Some (r, s') \<longrightarrow>
           issued (Run (UPDATE_flags (flags_str fl) u)) (f, w) s')
     \<and> (ready (f, w) \<and> current_schema (store (f, w)) \<longrightarrow>
          savemessage u content fl rtime mt lb (f, w) =
            Some (Inr u, wrote (Run (UPDATE_flags (flags_str fl) u))
              (map_rows (map (\<lambda>(k, r). (k, if k = u then r\<lparr>col_flags := Some (flags_str fl)\<rparr> else r)))
                 (store (f, w)))
              (f\<lparr>messagelist :=
                  map (\<lambda>(k, m). (k, if k = u then m\<lparr>msg_flags := fl\<rparr> else m)) (messagelist f)\<rparr>, w)))"
proof -
  have eq: "savemessage u content fl rtime mt lb (f, w) =
       map_option (\<lambda>(r, s'). (map_sum (\<lambda>e. e) (\<lambda>_. u) r, s')) (savemessageflags u fl (f, w))"
    by (rule savemessage_existing[OF assms])
  have iss: "issued (Run (UPDATE_flags (flags_str fl) u)) (f, w) s'"
    if "savemessage u content fl rtime mt lb (f, w) = Some (r, s')" for r s'
  proof -
    from that obtain r' where "savemessageflags u fl (f, w) = Some (r', s')"
      unfolding eq by auto
    with assms(2) show ?thesis
      by (auto simp: savemessageflags_def dest: sql_write_issued)
  qed
  have rdy: "savemessage u content fl rtime mt lb (f, w) =
            Some (Inr u, wrote (Run (UPDATE_flags (flags_str fl) u))
              (map_rows (map (\<lambda>(k, r). (k, if k = u then r\<lparr>col_flags := Some (flags_str fl)\<rparr> else r)))
                 (store (f, w)))
              (f\<lparr>messagelist :=
                  map (\<lambda>(k, m). (k, if k = u then m\<lparr>msg_flags := fl\<rparr> else m)) (messagelist f)\<rparr>, w))"
    if "ready (f, w)" "current_schema (store (f, w))"
    unfolding eq savemessageflags_ready[OF that(1) assms(2) that(2)] modify_map
    by simp
  from eq iss rdy show ?thesis
    by blast
qed

lemma uidexists_example: "uidexists example_folder 5"
  by (simp add: uidexists_def example_folder_def)

theorem savemessage_existing_uid_witness:
  "(0::int) \<le> 5 \<and> uidexists example_folder 5 \<and> ready (example_folder, example_world) \<and>
   current_schema (store (example_folder, example_world)) \<and>
   savemessage 5 [] {CHR ''T''} 0 0 {} (example_folder, example_world) =
     Some (Inr 5,
       (example_folder\<lparr>messagelist :=
          [(5, \<lparr>msg_uid = 5, msg_flags = {CHR ''T''}, msg_labels = {''Work''}, msg_time = 0,
             msg_mtime = Some 7\<rparr>)]\<rparr>,
        example_world\<lparr>files := [(''INBOX'', example_db\<lparr>status :=
            Some \<lparr>columns = [''id'', ''flags'', ''mtime'', ''labels''],
              rows = [(5, \<lparr>col_flags = Some ''T'', col_mtime = Some 7,
                col_labels = Some ''Work''\<rparr>)]\<rparr>\<rparr>)],
          tick := 2,
          calls := [(''INBOX'', Execute (UPDATE_flags ''T'' 5)), (''INBOX'', Commit)]\<rparr>))"
proof -
  have h: "(0::int) \<le> 5"
    by simp
  from savemessage_existing_uid[OF h uidexists_example, of "[]" "{CHR ''T''}" 0 0 "{}" example_world]
    ready_example current_schema_example
  have "savemessage 5 [] {CHR ''T''} 0 0 {} (example_folder, example_world) =
     Some (Inr 5, wrote (Run (UPDATE_flags (flags_str {CHR ''T''}) 5))
       (map_rows (map (\<lambda>(k, r). (k, if k = 5 then r\<lparr>col_flags := Some (flags_str {CHR ''T''})\<rparr> else r)))
          (store (example_folder, example_world)))
       (example_folder\<lparr>messagelist :=
          map (\<lambda>(k, m). (k, if k = 5 then m\<lparr>msg_flags := {CHR ''T''}\<rparr> else m))
            (messagelist example_folder)\<rparr>, example_world))"
    by blast
  then have "savemessage 5 [] {CHR ''T''} 0 0 {} (example_folder, example_world) =
     Some (Inr 5,
       (example_folder\<lparr>messagelist :=
          [(5, \<lparr>msg_uid = 5, msg_flags = {CHR ''T''}, msg_labels = {''Work''}, msg_time = 0,
             msg_mtime = Some 7\<rparr>)]\<rparr>,
        example_world\<lparr>files := [(''INBOX'', example_db\<lparr>status :=
            Some \<lparr>columns = [''id'', ''flags'', ''mtime'', ''labels''],
              rows = [(5, \<lparr>col_flags = Some ''T'', col_mtime = Some 7,
                col_labels = Some ''Work''\<rparr>)]\<rparr>\<rparr>)],
          tick := 2,
          calls := [(''INBOX'', Execute (UPDATE_flags ''T'' 5)), (''INBOX'', Commit)]\<rparr>))"
    unfolding store_example
    by (simp add: flags_str_T wrote_def map_rows_def example_db_def example_folder_def
        example_world_def)
  with h uidexists_example ready_example current_schema_example show ?thesis
    by blast
qed

text \<open>
  A negative uid that is in the message list (loaded from a table that has such a row) is
  returned by \<^verbatim>\<open>savemessage\<close> before the message list is looked at, with nothing updated,
  where \<^verbatim>\<open>savemessageflags\<close> updates the flags.
\<close>

lemma ready_stray: "ready (stray_folder, stray_world)" "ready (example_folder, stray_world)"
  by (simp_all add: ready_def stray_folder_def stray_world_def example_folder_def example_world_def quiet_def)

lemma store_stray: "store (stray_folder, stray_world) = stray_db"
  "store (example_folder, stray_world) = stray_db"
  by (simp_all add: store_def file_db_def stray_folder_def stray_world_def example_folder_def)

lemma current_schema_stray: "current_schema stray_db"
  by (simp add: current_schema_def stray_db_def has_columns_def)

lemma uidexists_stray: "uidexists stray_folder (-1)"
  by (simp add: uidexists_def stray_folder_def)

theorem savemessage_negative_existing_uid_counterexample:
  "uidexists stray_folder (-1) \<and>
   savemessage (-1) [] {CHR ''T''} 0 0 {} (stray_folder, stray_world) =
     Some (Inr (-1), (stray_folder, stray_world)) \<and>
   savemessageflags (-1) {CHR ''T''} (stray_folder, stray_world) =
     Some (Inr (),
       (stray_folder\<lparr>messagelist :=
          [(-1, \<lparr>msg_uid = -1, msg_flags = {CHR ''T''}, msg_labels = {}, msg_time = 0,
             msg_mtime = Some 0\<rparr>)]\<rparr>,
        stray_world\<lparr>files := [(''INBOX'', stray_db\<lparr>status :=
            Some \<lparr>columns = [''id'', ''flags'', ''mtime'', ''labels''],
              rows = [(-1, \<lparr>col_flags = Some ''T'', col_mtime = Some 0,
                col_labels = Some []\<rparr>)]\<rparr>\<rparr>)],
          tick := 2,
          calls := [(''INBOX'', Execute (UPDATE_flags ''T'' (-1))), (''INBOX'', Commit)]\<rparr>)) \<and>
   savemessageflags (-1) {CHR ''T''} (stray_folder, stray_world) \<noteq>
     Some (Inr (), (stray_folder, stray_world))"
proof -
  have c: "current_schema (store (stray_folder, stray_world))"
    by (simp add: store_stray current_schema_stray)
  have upd: "savemessageflags (-1) {CHR ''T''} (stray_folder, stray_world) =
     Some (Inr (),
       (stray_folder\<lparr>messagelist :=
          [(-1, \<lparr>msg_uid = -1, msg_flags = {CHR ''T''}, msg_labels = {}, msg_time = 0,
             msg_mtime = Some 0\<rparr>)]\<rparr>,
        stray_world\<lparr>files := [(''INBOX'', stray_db\<lparr>status :=
            Some \<lparr>columns = [''id'', ''flags'', ''mtime'', ''labels''],
              rows = [(-1, \<lparr>col_flags = Some ''T'', col_mtime = Some 0,
                col_labels = Some []\<rparr>)]\<rparr>\<rparr>)],
          tick := 2,
          calls := [(''INBOX'', Execute (UPDATE_flags ''T'' (-1))), (''INBOX'', Commit)]\<rparr>))"
    unfolding savemessageflags_ready[OF ready_stray(1) uidexists_stray c] store_stray
    by (simp add: flags_str_T wrote_def map_rows_def modify_def stray_db_def
        stray_folder_def stray_world_def example_folder_def example_world_def)
  have diff: "savemessageflags (-1) {CHR ''T''} (stray_folder, stray_world) \<noteq>
     Some (Inr (), (stray_folder, stray_world))"
    unfolding upd by (simp add: stray_folder_def example_folder_def)
  have ret: "savemessage (-1) [] {CHR ''T''} 0 0 {} (stray_folder, stray_world) =
     Some (Inr (-1), (stray_folder, stray_world))"
    by (simp add: savemessage_def)
  from uidexists_stray ret upd diff show ?thesis
    by blast
qed

text \<open>
  C10: \<^verbatim>\<open>savemessagelabels\<close> with \<^verbatim>\<open>mtime\<close> 0 behaves as with no \<^verbatim>\<open>mtime\<close> at all: the
  message of that uid gets the new labels in the message list, its row gets them serialised
  with \<^verbatim>\<open>UPDATE status SET labels=? WHERE id=?\<close>, and every \<^verbatim>\<open>mtime\<close> of the message list
  and of the table stays as it was. With an \<^verbatim>\<open>mtime\<close> other than 0 the message and the row
  get that \<^verbatim>\<open>mtime\<close> as well, with \<^verbatim>\<open>UPDATE status SET labels=?, mtime=? WHERE id=?\<close>.
\<close>

theorem savemessagelabels_mtime_zero:
  "savemessagelabels u lb (Some 0) s = savemessagelabels u lb None s
   \<and> (ready (f, w) \<and> uidexists f u \<and> current_schema (store (f, w)) \<longrightarrow>
        (\<exists>s'. savemessagelabels u lb (Some 0) (f, w) = Some (Inr (), s')
           \<and> s' = wrote (Run (UPDATE_labels (labels_str lb) u))
               (map_rows (map (\<lambda>(k, r). (k, if k = u
                  then r\<lparr>col_labels := Some (labels_str lb)\<rparr> else r))) (store (f, w)))
               (f\<lparr>messagelist := map (\<lambda>(k, m). (k, if k = u then m\<lparr>msg_labels := lb\<rparr> else m))
                  (messagelist f)\<rparr>, w)
           \<and> messagelist (fst s') =
               map (\<lambda>(k, m). (k, if k = u then m\<lparr>msg_labels := lb\<rparr> else m)) (messagelist f)
           \<and> store_rows s' =
               map (\<lambda>(k, r). (k, if k = u then r\<lparr>col_labels := Some (labels_str lb)\<rparr> else r))
                 (store_rows (f, w))
           \<and> map (\<lambda>(i, m). msg_mtime m) (messagelist (fst s')) =
               map (\<lambda>(i, m). msg_mtime m) (messagelist f)
           \<and> map (\<lambda>(i, r). col_mtime r) (store_rows s') =
               map (\<lambda>(i, r). col_mtime r) (store_rows (f, w))
           \<and> calls (snd s') = calls w @ (filename f, Execute (UPDATE_labels (labels_str lb) u)) #
               (if in_transactions f = 0 then [(filename f, Commit)] else [])))
   \<and> (ready (f, w) \<and> uidexists f u \<and> current_schema (store (f, w)) \<and> t \<noteq> 0 \<longrightarrow>
        (\<exists>s'. savemessagelabels u lb (Some t) (f, w) = Some (Inr (), s')
           \<and> s' = wrote (Run (UPDATE_labels_mtime (labels_str lb) t u))
               (map_rows (map (\<lambda>(k, r). (k, if k = u
                  then r\<lparr>col_labels := Some (labels_str lb), col_mtime := Some t\<rparr> else r)))
                  (store (f, w)))
               (f\<lparr>messagelist := map (\<lambda>(k, m). (k, if k = u
                  then m\<lparr>msg_labels := lb, msg_mtime := Some t\<rparr> else m)) (messagelist f)\<rparr>, w)
           \<and> messagelist (fst s') =
               map (\<lambda>(k, m). (k, if k = u then m\<lparr>msg_labels := lb, msg_mtime := Some t\<rparr> else m))
                 (messagelist f)
           \<and> store_rows s' =
               map (\<lambda>(k, r). (k, if k = u
                  then r\<lparr>col_labels := Some (labels_str lb), col_mtime := Some t\<rparr> else r))
                 (store_rows (f, w))
           \<and> calls (snd s') =
               calls w @ (filename f, Execute (UPDATE_labels_mtime (labels_str lb) t u)) #
               (if in_transactions f = 0 then [(filename f, Commit)] else [])))"
proof (intro conjI impI)
  show "savemessagelabels u lb (Some 0) s = savemessagelabels u lb None s"
    by (rule savemessagelabels_zero)
next
  assume a: "ready (f, w) \<and> uidexists f u \<and> current_schema (store (f, w))"
  let ?f = "f\<lparr>messagelist := modify u (\<lambda>m. m\<lparr>msg_labels := lb\<rparr>) (messagelist f)\<rparr>"
  let ?g = "modify u (\<lambda>r. r\<lparr>col_labels := Some (labels_str lb)\<rparr>)"
  let ?rq = "Run (UPDATE_labels (labels_str lb) u)"
  let ?s = "wrote ?rq (map_rows ?g (store (f, w))) (?f, w)"
  have 1: "savemessagelabels u lb (Some 0) (f, w) = Some (Inr (), ?s)"
    using a by (simp add: savemessagelabels_zero savemessagelabels_plain_ready)
  have 0: "?s = wrote (Run (UPDATE_labels (labels_str lb) u))
      (map_rows (map (\<lambda>(k, r). (k, if k = u
          then r\<lparr>col_labels := Some (labels_str lb)\<rparr> else r))) (store (f, w)))
      (f\<lparr>messagelist := map (\<lambda>(k, m). (k, if k = u then m\<lparr>msg_labels := lb\<rparr> else m))
          (messagelist f)\<rparr>, w)"
    unfolding modify_map by simp
  have 2: "messagelist (fst ?s) =
      map (\<lambda>(k, m). (k, if k = u then m\<lparr>msg_labels := lb\<rparr> else m)) (messagelist f)"
    by (simp add: modify_map)
  have 3: "store_rows ?s =
      map (\<lambda>(k, r). (k, if k = u then r\<lparr>col_labels := Some (labels_str lb)\<rparr> else r))
        (store_rows (f, w))"
    using a store_rows_wrote[of "(?f, w)" ?rq ?g] by (simp add: modify_map)
  have 4: "map (\<lambda>(i, m). msg_mtime m) (messagelist (fst ?s)) =
      map (\<lambda>(i, m). msg_mtime m) (messagelist f)"
    unfolding 2 by (rule map_keeps) simp
  have 5: "map (\<lambda>(i, r). col_mtime r) (store_rows ?s) =
      map (\<lambda>(i, r). col_mtime r) (store_rows (f, w))"
    unfolding 3 by (rule map_keeps) simp
  have 6: "calls (snd ?s) = calls w @ (filename f, Execute (UPDATE_labels (labels_str lb) u)) #
      (if in_transactions f = 0 then [(filename f, Commit)] else [])"
    by (simp add: calls_wrote)
  from 1 0 2 3 4 5 6
  show "\<exists>s'. savemessagelabels u lb (Some 0) (f, w) = Some (Inr (), s')
           \<and> s' = wrote (Run (UPDATE_labels (labels_str lb) u))
               (map_rows (map (\<lambda>(k, r). (k, if k = u
                  then r\<lparr>col_labels := Some (labels_str lb)\<rparr> else r))) (store (f, w)))
               (f\<lparr>messagelist := map (\<lambda>(k, m). (k, if k = u then m\<lparr>msg_labels := lb\<rparr> else m))
                  (messagelist f)\<rparr>, w)
           \<and> messagelist (fst s') =
               map (\<lambda>(k, m). (k, if k = u then m\<lparr>msg_labels := lb\<rparr> else m)) (messagelist f)
           \<and> store_rows s' =
               map (\<lambda>(k, r). (k, if k = u then r\<lparr>col_labels := Some (labels_str lb)\<rparr> else r))
                 (store_rows (f, w))
           \<and> map (\<lambda>(i, m). msg_mtime m) (messagelist (fst s')) =
               map (\<lambda>(i, m). msg_mtime m) (messagelist f)
           \<and> map (\<lambda>(i, r). col_mtime r) (store_rows s') =
               map (\<lambda>(i, r). col_mtime r) (store_rows (f, w))
           \<and> calls (snd s') = calls w @ (filename f, Execute (UPDATE_labels (labels_str lb) u)) #
               (if in_transactions f = 0 then [(filename f, Commit)] else [])"
    by blast
next
  assume a: "ready (f, w) \<and> uidexists f u \<and> current_schema (store (f, w)) \<and> t \<noteq> 0"
  let ?f = "f\<lparr>messagelist :=
      modify u (\<lambda>m. m\<lparr>msg_labels := lb, msg_mtime := Some t\<rparr>) (messagelist f)\<rparr>"
  let ?g = "modify u (\<lambda>r. r\<lparr>col_labels := Some (labels_str lb), col_mtime := Some t\<rparr>)"
  let ?rq = "Run (UPDATE_labels_mtime (labels_str lb) t u)"
  let ?s = "wrote ?rq (map_rows ?g (store (f, w))) (?f, w)"
  have 1: "savemessagelabels u lb (Some t) (f, w) = Some (Inr (), ?s)"
    using a by (simp add: savemessagelabels_mtime_ready)
  have 0: "?s = wrote (Run (UPDATE_labels_mtime (labels_str lb) t u))
      (map_rows (map (\<lambda>(k, r). (k, if k = u
          then r\<lparr>col_labels := Some (labels_str lb), col_mtime := Some t\<rparr> else r)))
          (store (f, w)))
      (f\<lparr>messagelist := map (\<lambda>(k, m). (k, if k = u
          then m\<lparr>msg_labels := lb, msg_mtime := Some t\<rparr> else m)) (messagelist f)\<rparr>, w)"
    unfolding modify_map by simp
  have 2: "messagelist (fst ?s) =
      map (\<lambda>(k, m). (k, if k = u then m\<lparr>msg_labels := lb, msg_mtime := Some t\<rparr> else m))
        (messagelist f)"
    by (simp add: modify_map)
  have 3: "store_rows ?s =
      map (\<lambda>(k, r). (k, if k = u
          then r\<lparr>col_labels := Some (labels_str lb), col_mtime := Some t\<rparr> else r))
        (store_rows (f, w))"
    using a store_rows_wrote[of "(?f, w)" ?rq ?g] by (simp add: modify_map)
  have 6: "calls (snd ?s) =
      calls w @ (filename f, Execute (UPDATE_labels_mtime (labels_str lb) t u)) #
      (if in_transactions f = 0 then [(filename f, Commit)] else [])"
    by (simp add: calls_wrote)
  from 1 0 2 3 6
  show "\<exists>s'. savemessagelabels u lb (Some t) (f, w) = Some (Inr (), s')
           \<and> s' = wrote (Run (UPDATE_labels_mtime (labels_str lb) t u))
               (map_rows (map (\<lambda>(k, r). (k, if k = u
                  then r\<lparr>col_labels := Some (labels_str lb), col_mtime := Some t\<rparr> else r)))
                  (store (f, w)))
               (f\<lparr>messagelist := map (\<lambda>(k, m). (k, if k = u
                  then m\<lparr>msg_labels := lb, msg_mtime := Some t\<rparr> else m)) (messagelist f)\<rparr>, w)
           \<and> messagelist (fst s') =
               map (\<lambda>(k, m). (k, if k = u then m\<lparr>msg_labels := lb, msg_mtime := Some t\<rparr> else m))
                 (messagelist f)
           \<and> store_rows s' =
               map (\<lambda>(k, r). (k, if k = u
                  then r\<lparr>col_labels := Some (labels_str lb), col_mtime := Some t\<rparr> else r))
                 (store_rows (f, w))
           \<and> calls (snd s') =
               calls w @ (filename f, Execute (UPDATE_labels_mtime (labels_str lb) t u)) #
               (if in_transactions f = 0 then [(filename f, Commit)] else [])"
    by blast
qed

theorem savemessagelabels_mtime_zero_witness:
  "ready (example_folder, example_world) \<and> uidexists example_folder 5 \<and>
   current_schema (store (example_folder, example_world)) \<and> (9::int) \<noteq> 0 \<and>
   (\<exists>s'. savemessagelabels 5 {''Home''} (Some 0) (example_folder, example_world) =
        Some (Inr (), s')
      \<and> messagelist (fst s') =
          [(5, \<lparr>msg_uid = 5, msg_flags = {CHR ''S''}, msg_labels = {''Home''}, msg_time = 0,
             msg_mtime = Some 7\<rparr>)]
      \<and> store_rows s' =
          [(5, \<lparr>col_flags = Some ''S'', col_mtime = Some 7, col_labels = Some ''Home''\<rparr>)]
      \<and> calls (snd s') = [(''INBOX'', Execute (UPDATE_labels ''Home'' 5)), (''INBOX'', Commit)]) \<and>
   (\<exists>s'. savemessagelabels 5 {''Home''} (Some 9) (example_folder, example_world) =
        Some (Inr (), s')
      \<and> messagelist (fst s') =
          [(5, \<lparr>msg_uid = 5, msg_flags = {CHR ''S''}, msg_labels = {''Home''}, msg_time = 0,
             msg_mtime = Some 9\<rparr>)]
      \<and> store_rows s' =
          [(5, \<lparr>col_flags = Some ''S'', col_mtime = Some 9, col_labels = Some ''Home''\<rparr>)]
      \<and> calls (snd s') =
          [(''INBOX'', Execute (UPDATE_labels_mtime ''Home'' 9 5)), (''INBOX'', Commit)])"
proof -
  have h: "(9::int) \<noteq> 0"
    by simp
  note t = savemessagelabels_mtime_zero[where u = 5 and lb = "{''Home''}" and f = example_folder
      and w = example_world and t = 9]
  have ml: "messagelist example_folder =
      [(5, \<lparr>msg_uid = 5, msg_flags = {CHR ''S''}, msg_labels = {''Work''}, msg_time = 0,
         msg_mtime = Some 7\<rparr>)]"
    and fw: "filename example_folder = ''INBOX''" "in_transactions example_folder = 0"
      "calls example_world = []"
    by (simp_all add: example_folder_def example_world_def)
  from t ready_example uidexists_example current_schema_example
  obtain s1 where s1: "savemessagelabels 5 {''Home''} (Some 0) (example_folder, example_world) =
        Some (Inr (), s1)"
    "messagelist (fst s1) =
      map (\<lambda>(k, m). (k, if k = 5 then m\<lparr>msg_labels := {''Home''}\<rparr> else m))
        (messagelist example_folder)"
    "store_rows s1 =
      map (\<lambda>(k, r). (k, if k = 5 then r\<lparr>col_labels := Some (labels_str {''Home''})\<rparr> else r))
        (store_rows (example_folder, example_world))"
    "calls (snd s1) = calls example_world @
       (filename example_folder, Execute (UPDATE_labels (labels_str {''Home''}) 5)) #
       (if in_transactions example_folder = 0 then [(filename example_folder, Commit)] else [])"
    by blast
  from t ready_example uidexists_example current_schema_example h
  obtain s2 where s2: "savemessagelabels 5 {''Home''} (Some 9) (example_folder, example_world) =
        Some (Inr (), s2)"
    "messagelist (fst s2) =
      map (\<lambda>(k, m). (k, if k = 5 then m\<lparr>msg_labels := {''Home''}, msg_mtime := Some 9\<rparr> else m))
        (messagelist example_folder)"
    "store_rows s2 =
      map (\<lambda>(k, r). (k, if k = 5
          then r\<lparr>col_labels := Some (labels_str {''Home''}), col_mtime := Some 9\<rparr> else r))
        (store_rows (example_folder, example_world))"
    "calls (snd s2) = calls example_world @
       (filename example_folder, Execute (UPDATE_labels_mtime (labels_str {''Home''}) 9 5)) #
       (if in_transactions example_folder = 0 then [(filename example_folder, Commit)] else [])"
    by blast
  have a: "\<exists>s'. savemessagelabels 5 {''Home''} (Some 0) (example_folder, example_world) =
        Some (Inr (), s')
      \<and> messagelist (fst s') =
          [(5, \<lparr>msg_uid = 5, msg_flags = {CHR ''S''}, msg_labels = {''Home''}, msg_time = 0,
             msg_mtime = Some 7\<rparr>)]
      \<and> store_rows s' =
          [(5, \<lparr>col_flags = Some ''S'', col_mtime = Some 7, col_labels = Some ''Home''\<rparr>)]
      \<and> calls (snd s') = [(''INBOX'', Execute (UPDATE_labels ''Home'' 5)), (''INBOX'', Commit)]"
    using s1 by (simp add: ml fw store_rows_example labels_str_Home)
  have b: "\<exists>s'. savemessagelabels 5 {''Home''} (Some 9) (example_folder, example_world) =
        Some (Inr (), s')
      \<and> messagelist (fst s') =
          [(5, \<lparr>msg_uid = 5, msg_flags = {CHR ''S''}, msg_labels = {''Home''}, msg_time = 0,
             msg_mtime = Some 9\<rparr>)]
      \<and> store_rows s' =
          [(5, \<lparr>col_flags = Some ''S'', col_mtime = Some 9, col_labels = Some ''Home''\<rparr>)]
      \<and> calls (snd s') =
          [(''INBOX'', Execute (UPDATE_labels_mtime ''Home'' 9 5)), (''INBOX'', Commit)]"
    using s2 by (simp add: ml fw store_rows_example labels_str_Home)
  from ready_example uidexists_example current_schema_example h a b show ?thesis
    by blast
qed

subsection \<open>The transaction scope\<close>

lemma scope_step_nonneg:
  "0 \<le> in_transactions (fst s) \<Longrightarrow> 0 \<le> in_transactions (fst (scope_step k s))"
  by (cases s; cases k)
    (auto simp: enter_def exit_def Let_def split: sum.splits option.splits prod.splits if_splits)

lemma scope_run_nonneg:
  "0 \<le> in_transactions (fst s) \<Longrightarrow> 0 \<le> in_transactions (fst (fold scope_step ks s))"
proof (induction ks arbitrary: s)
  case Nil
  then show ?case by simp
next
  case (Cons k ks)
  from Cons.prems have "0 \<le> in_transactions (fst (scope_step k s))"
    by (rule scope_step_nonneg)
  then show ?case
    using Cons.IH by simp
qed

lemma begin_call_calls_eq: "calls (snd (begin_call c k w)) = calls w @ [(path c, k)]"
  by (simp add: begin_call_def Let_def split: option.splits)

text \<open>
  C8 (as amended): when \<^verbatim>\<open>dofsync()\<close> is false, \<^verbatim>\<open>__enter__\<close> on an opened folder adds 1
  to \<^verbatim>\<open>_in_transactions\<close>, and on a folder that was never opened it fails its assertion;
  \<^verbatim>\<open>__exit__\<close> with the counter above 0 subtracts 1, whatever happens next, and calls
  \<^verbatim>\<open>commit\<close> exactly when the counter comes back to 0 (no call on the connection when it
  stays above 0); \<^verbatim>\<open>__exit__\<close> with the counter at 0 or below fails its assertion and
  changes nothing. When \<^verbatim>\<open>dofsync()\<close> is true, \<^verbatim>\<open>__enter__\<close> and \<^verbatim>\<open>__exit__\<close> return
  normally and change nothing. Whatever \<^verbatim>\<open>dofsync()\<close> is, no sequence of entries and exits
  makes a counter that is not negative negative.
\<close>

theorem transaction_scope_counter:
  "(\<not> dofsync f \<and> connection f \<noteq> None \<longrightarrow>
      enter f = Inr (f\<lparr>in_transactions := in_transactions f + 1\<rparr>)) \<and>
   (\<not> dofsync f \<and> connection f = None \<longrightarrow> enter f = Inl AssertionError) \<and>
   (\<not> dofsync f \<and> 0 < in_transactions f \<longrightarrow>
      fst (snd (exit (f, w))) = f\<lparr>in_transactions := in_transactions f - 1\<rparr>) \<and>
   (\<not> dofsync f \<and> 0 < in_transactions f \<and> connection f = Some c \<longrightarrow>
      calls (snd (snd (exit (f, w)))) =
        calls w @ (if in_transactions f = 1 then [(path c, Commit)] else [])) \<and>
   (\<not> dofsync f \<and> 1 < in_transactions f \<longrightarrow>
      exit (f, w) = (Inr (), (f\<lparr>in_transactions := in_transactions f - 1\<rparr>, w))) \<and>
   (\<not> dofsync f \<and> in_transactions f = 1 \<and> connection f = Some c \<and> \<not> closed c \<and>
    faults w (tick w) = None \<longrightarrow>
      exit (f, w) = (Inr (), (f\<lparr>in_transactions := 0\<rparr>,
        w\<lparr>tick := Suc (tick w), calls := calls w @ [(path c, Commit)]\<rparr>))) \<and>
   (\<not> dofsync f \<and> in_transactions f \<le> 0 \<longrightarrow> exit (f, w) = (Inl AssertionError, (f, w))) \<and>
   (dofsync f \<longrightarrow> enter f = Inr f \<and> exit (f, w) = (Inr (), (f, w))) \<and>
   (0 \<le> in_transactions f \<longrightarrow> 0 \<le> in_transactions (fst (fold scope_step ks (f, w))))"
proof (intro conjI impI)
  show "enter f = Inr (f\<lparr>in_transactions := in_transactions f + 1\<rparr>)"
    if "\<not> dofsync f \<and> connection f \<noteq> None"
    using that by (auto simp: enter_def)
  show "enter f = Inl AssertionError" if "\<not> dofsync f \<and> connection f = None"
    using that by (simp add: enter_def)
  show "fst (snd (exit (f, w))) = f\<lparr>in_transactions := in_transactions f - 1\<rparr>"
    if "\<not> dofsync f \<and> 0 < in_transactions f"
    using that by (auto simp: exit_def Let_def split: option.splits prod.splits)
  show "calls (snd (snd (exit (f, w)))) =
        calls w @ (if in_transactions f = 1 then [(path c, Commit)] else [])"
    if "\<not> dofsync f \<and> 0 < in_transactions f \<and> connection f = Some c"
    using that begin_call_calls_eq[of c Commit w]
    by (auto simp: exit_def Let_def conn_commit_def split: option.splits prod.splits)
  show "exit (f, w) = (Inr (), (f\<lparr>in_transactions := in_transactions f - 1\<rparr>, w))"
    if "\<not> dofsync f \<and> 1 < in_transactions f"
    using that by (auto simp: exit_def Let_def)
  show "exit (f, w) = (Inr (), (f\<lparr>in_transactions := 0\<rparr>,
        w\<lparr>tick := Suc (tick w), calls := calls w @ [(path c, Commit)]\<rparr>))"
    if "\<not> dofsync f \<and> in_transactions f = 1 \<and> connection f = Some c \<and> \<not> closed c \<and>
      faults w (tick w) = None"
    using that by (auto simp: exit_def Let_def conn_commit_def begin_call_def)
  show "exit (f, w) = (Inl AssertionError, (f, w))" if "\<not> dofsync f \<and> in_transactions f \<le> 0"
    using that by (auto simp: exit_def)
  show "enter f = Inr f" if "dofsync f"
    using that by (simp add: enter_def)
  show "exit (f, w) = (Inr (), (f, w))" if "dofsync f"
    using that by (simp add: exit_def)
  show "0 \<le> in_transactions (fst (fold scope_step ks (f, w)))" if "0 \<le> in_transactions f"
    using that scope_run_nonneg[of "(f, w)" ks] by simp
qed

theorem transaction_scope_fsync_counterexample:
  "enter (example_folder\<lparr>dofsync := True\<rparr>) = Inr (example_folder\<lparr>dofsync := True\<rparr>) \<and>
   in_transactions (example_folder\<lparr>dofsync := True\<rparr>) = 0 \<and>
   exit (example_folder\<lparr>dofsync := True\<rparr>, example_world) =
     (Inr (), (example_folder\<lparr>dofsync := True\<rparr>, example_world))"
  by (simp add: enter_def exit_def example_folder_def)

theorem transaction_scope_counter_witness:
  "\<not> dofsync example_folder \<and> connection example_folder \<noteq> None \<and>
   enter example_folder = Inr (example_folder\<lparr>in_transactions := 1\<rparr>) \<and>
   connection unopened_folder = None \<and> enter unopened_folder = Inl AssertionError \<and>
   exit (example_folder\<lparr>in_transactions := 2\<rparr>, example_world) =
     (Inr (), (example_folder\<lparr>in_transactions := 1\<rparr>, example_world)) \<and>
   exit (example_folder\<lparr>in_transactions := 1\<rparr>, example_world) =
     (Inr (), (example_folder\<lparr>in_transactions := 0\<rparr>,
        example_world\<lparr>tick := 1, calls := [(''INBOX'', Commit)]\<rparr>)) \<and>
   exit (example_folder, example_world) = (Inl AssertionError, (example_folder, example_world)) \<and>
   dofsync (example_folder\<lparr>dofsync := True\<rparr>) \<and>
   enter (example_folder\<lparr>dofsync := True\<rparr>) = Inr (example_folder\<lparr>dofsync := True\<rparr>) \<and>
   exit (example_folder\<lparr>dofsync := True\<rparr>, example_world) =
     (Inr (), (example_folder\<lparr>dofsync := True\<rparr>, example_world)) \<and>
   0 \<le> in_transactions (fst (fold scope_step [Enter, Exit, Exit, Enter]
     (example_folder, example_world)))"
proof -
  let ?c = "\<lparr>path = ''INBOX'', closed = False\<rparr>"
  have d: "\<not> dofsync example_folder" "\<not> dofsync (example_folder\<lparr>in_transactions := 2\<rparr>)"
    "\<not> dofsync (example_folder\<lparr>in_transactions := 1\<rparr>)" "\<not> dofsync unopened_folder"
    "dofsync (example_folder\<lparr>dofsync := True\<rparr>)"
    by (simp_all add: example_folder_def unopened_folder_def)
  note a = transaction_scope_counter[of example_folder example_world ?c "[Enter, Exit, Exit, Enter]"]
  note b = transaction_scope_counter[of "example_folder\<lparr>in_transactions := 2\<rparr>" example_world ?c "[]"]
  note c = transaction_scope_counter[of "example_folder\<lparr>in_transactions := 1\<rparr>" example_world ?c "[]"]
  note u = transaction_scope_counter[of unopened_folder example_world ?c "[]"]
  note y = transaction_scope_counter[of "example_folder\<lparr>dofsync := True\<rparr>" example_world ?c "[]"]
  have e: "connection example_folder \<noteq> None" "in_transactions example_folder = 0"
    "connection unopened_folder = None"
    by (simp_all add: example_folder_def unopened_folder_def)
  have z: "0 \<le> in_transactions example_folder" "in_transactions example_folder \<le> 0"
    using e(2) by simp_all
  from a d(1) e(1) have "enter example_folder =
      Inr (example_folder\<lparr>in_transactions := in_transactions example_folder + 1\<rparr>)"
    by blast
  then have 1: "enter example_folder = Inr (example_folder\<lparr>in_transactions := 1\<rparr>)"
    by (simp add: e(2))
  from a d(1) z have 4:
    "exit (example_folder, example_world) = (Inl AssertionError, (example_folder, example_world))"
    "0 \<le> in_transactions (fst (fold scope_step [Enter, Exit, Exit, Enter]
        (example_folder, example_world)))"
    by blast+
  from b d(2) have 2: "exit (example_folder\<lparr>in_transactions := 2\<rparr>, example_world) =
     (Inr (), (example_folder\<lparr>in_transactions := 1\<rparr>, example_world))"
    by simp
  from c d(3) have 3: "exit (example_folder\<lparr>in_transactions := 1\<rparr>, example_world) =
     (Inr (), (example_folder\<lparr>in_transactions := 0\<rparr>,
        example_world\<lparr>tick := 1, calls := [(''INBOX'', Commit)]\<rparr>))"
    by (simp add: example_folder_def example_world_def)
  from u d(4) e(3) have 5: "enter unopened_folder = Inl AssertionError"
    by blast
  from y d(5) have 6:
    "enter (example_folder\<lparr>dofsync := True\<rparr>) = Inr (example_folder\<lparr>dofsync := True\<rparr>)"
    "exit (example_folder\<lparr>dofsync := True\<rparr>, example_world) =
       (Inr (), (example_folder\<lparr>dofsync := True\<rparr>, example_world))"
    by blast+
  from d(1,5) e(1,3) 1 2 3 4 5 6 show ?thesis
    by blast
qed

subsection \<open>The write executor under contention\<close>

lemma round_execute_fault:
  assumes "usable (f, w) c" "faults w (tick w) = Some m"
  shows "sql_write_round rq (f, w) =
     Some (handler False (OperationalError m) (f, called c (call_of rq) w))"
  using assms
  by (simp add: sql_write_round_def usable_def acquire_def release_def conn_run_call
      conn_call_def begin_call_def conn_commit_def called_def set_file_def file_db_def
      unheld_triv split: option.splits)

lemma round_statement_error:
  assumes "usable (f, w) c" "faults w (tick w) = None"
    "run_db rq (file_db w (path c)) = (Some e, db)"
  shows "sql_write_round rq (f, w) =
     Some (handler False e (f, set_file (path c) db (called c (call_of rq) w)))"
  using assms
  by (simp add: sql_write_round_def usable_def acquire_def release_def conn_run_call
      conn_call_def begin_call_def conn_commit_def called_def set_file_def file_db_def
      unheld_triv split: option.splits)

lemma round_no_commit:
  assumes "usable (f, w) c" "faults w (tick w) = None"
    "run_db rq (file_db w (path c)) = (None, db)" "in_transactions f \<noteq> 0"
  shows "sql_write_round rq (f, w) =
     Some (Finished (Inr ()) (f, set_file (path c) db (called c (call_of rq) w)))"
  using assms
  by (simp add: sql_write_round_def usable_def acquire_def release_def conn_run_call
      conn_call_def begin_call_def conn_commit_def called_def set_file_def file_db_def
      unheld_triv split: option.splits)

lemma round_commit_fault:
  assumes "usable (f, w) c" "faults w (tick w) = None"
    "run_db rq (file_db w (path c)) = (None, db)" "in_transactions f = 0"
    "faults w (Suc (tick w)) = Some m"
  shows "sql_write_round rq (f, w) =
     Some (handler True (OperationalError m)
       (f, called c Commit (set_file (path c) db (called c (call_of rq) w))))"
  using assms
  by (simp add: sql_write_round_def usable_def acquire_def release_def conn_run_call
      conn_call_def begin_call_def conn_commit_def called_def set_file_def file_db_def
      unheld_triv split: option.splits)

lemma round_commit_ok:
  assumes "usable (f, w) c" "faults w (tick w) = None"
    "run_db rq (file_db w (path c)) = (None, db)" "in_transactions f = 0"
    "faults w (Suc (tick w)) = None"
  shows "sql_write_round rq (f, w) =
     Some (Finished (Inr ())
       (f, called c Commit (set_file (path c) db (called c (call_of rq) w))))"
  using assms
  by (simp add: sql_write_round_def usable_def acquire_def release_def conn_run_call
      conn_call_def begin_call_def conn_commit_def called_def set_file_def file_db_def
      unheld_triv split: option.splits)

lemma usable_after [simp]:
  "usable (f, called c k w) c' = usable (f, w) c'"
  "usable (f, set_file p db w) c' = usable (f, w) c'"
  by (simp_all add: usable_def called_def set_file_def)

lemma locked_from_called: "locked_from w \<Longrightarrow> locked_from (called c k w)"
  unfolding locked_from_def called_def
proof
  fix n
  assume a: "\<forall>n. faults w (tick w + n) = Some ''database is locked''"
  from a have "faults w (tick w + Suc n) = Some ''database is locked''"
    by blast
  then show "faults (w\<lparr>tick := Suc (tick w), calls := calls w @ [(path c, k)]\<rparr>)
      (tick (w\<lparr>tick := Suc (tick w), calls := calls w @ [(path c, k)]\<rparr>) + n) =
      Some ''database is locked''"
    by simp
qed

lemma locked_from_now: "locked_from w \<Longrightarrow> faults w (tick w) = Some ''database is locked''"
  unfolding locked_from_def
proof -
  assume "\<forall>n. faults w (tick w + n) = Some ''database is locked''"
  then have "faults w (tick w + 0) = Some ''database is locked''"
    by blast
  then show ?thesis by simp
qed

lemma sql_write_locked_forever:
  assumes "usable (f, w) c" and "locked_from w"
  shows "sql_write rq (f, w) = None"
proof (rule ccontr)
  assume "sql_write rq (f, w) \<noteq> None"
  then obtain y where y: "sql_write rq (f, w) = Some y"
    by auto
  have "\<not> (usable s c \<and> locked_from (snd s))" if "sql_write rq' s = Some y'" for rq' s y'
  proof (rule sql_write.raw_induct[where P = "\<lambda>rq s y. \<not> (usable s c \<and> locked_from (snd s))",
        OF _ that])
    fix sw rq s y
    assume IH: "\<And>rq s y. sw rq s = Some y \<Longrightarrow> \<not> (usable s c \<and> locked_from (snd s))"
      and step: "(case sql_write_round rq s of None \<Rightarrow> None | Some (Again s') \<Rightarrow> sw rq s'
         | Some (Finished r s') \<Rightarrow> Some (r, s')) = Some y"
    show "\<not> (usable s c \<and> locked_from (snd s))"
    proof
      assume a: "usable s c \<and> locked_from (snd s)"
      obtain f w where s: "s = (f, w)" by (cases s)
      from a have u: "usable (f, w) c" and l: "locked_from w"
        by (simp_all add: s)
      have "sql_write_round rq (f, w) = Some (Again (f, called c (call_of rq) w))"
        using round_execute_fault[OF u locked_from_now[OF l]] by (simp add: handler_def)
      with step have "sw rq (f, called c (call_of rq) w) = Some y"
        by (simp add: s)
      from IH[OF this] u locked_from_called[OF l] show False
        by simp
    qed
  qed
  from this[OF y] assms show False
    by simp
qed

text \<open>
  C7: \<^verbatim>\<open>__sql_write\<close> on a usable connection. When the statement or the \<^verbatim>\<open>commit\<close> raises
  \<^verbatim>\<open>database is locked\<close> the whole critical section is run again, statement included, from the
  state reached; if the database stays locked for ever the call never returns. When the
  \<^verbatim>\<open>commit\<close> raises \<^verbatim>\<open>cannot commit - no transaction is active\<close> the error is dropped and the
  write has succeeded. Any other operational error, from the statement or from the \<^verbatim>\<open>commit\<close>,
  is raised to the caller. Without errors the statement is followed by a \<^verbatim>\<open>commit\<close> when
  \<^verbatim>\<open>_in_transactions\<close> is 0, and by nothing when it is positive.
\<close>

theorem sql_write_policy:
  "usable (f, w) c \<Longrightarrow>
     (faults w (tick w) = Some ''database is locked'' \<longrightarrow>
        sql_write rq (f, w) = sql_write rq (f, called c (call_of rq) w)) \<and>
     (faults w (tick w) = None \<and> run_db rq (file_db w (path c)) = (None, db) \<and>
      in_transactions f = 0 \<and> faults w (Suc (tick w)) = Some ''database is locked'' \<longrightarrow>
        sql_write rq (f, w) =
          sql_write rq (f, called c Commit (set_file (path c) db (called c (call_of rq) w)))) \<and>
     (locked_from w \<longrightarrow> sql_write rq (f, w) = None) \<and>
     (faults w (tick w) = None \<and> run_db rq (file_db w (path c)) = (None, db) \<and>
      in_transactions f = 0 \<and>
      faults w (Suc (tick w)) = Some ''cannot commit - no transaction is active'' \<longrightarrow>
        sql_write rq (f, w) =
          Some (Inr (), (f, called c Commit (set_file (path c) db (called c (call_of rq) w))))) \<and>
     (faults w (tick w) = Some m \<and> m \<noteq> ''database is locked'' \<and>
      m \<noteq> ''cannot commit - no transaction is active'' \<longrightarrow>
        sql_write rq (f, w) = Some (Inl (OperationalError m), (f, called c (call_of rq) w))) \<and>
     (faults w (tick w) = None \<and> run_db rq (file_db w (path c)) = (None, db) \<and>
      in_transactions f = 0 \<and> faults w (Suc (tick w)) = Some m \<and>
      m \<noteq> ''database is locked'' \<and> m \<noteq> ''cannot commit - no transaction is active'' \<longrightarrow>
        sql_write rq (f, w) =
          Some (Inl (OperationalError m),
            (f, called c Commit (set_file (path c) db (called c (call_of rq) w))))) \<and>
     (faults w (tick w) = None \<and> run_db rq (file_db w (path c)) = (None, db) \<and>
      in_transactions f = 0 \<and> faults w (Suc (tick w)) = None \<longrightarrow>
        sql_write rq (f, w) =
          Some (Inr (), (f, called c Commit (set_file (path c) db (called c (call_of rq) w))))) \<and>
     (faults w (tick w) = None \<and> run_db rq (file_db w (path c)) = (None, db) \<and>
      0 < in_transactions f \<longrightarrow>
        sql_write rq (f, w) = Some (Inr (), (f, set_file (path c) db (called c (call_of rq) w))))"
proof -
  assume u: "usable (f, w) c"
  show ?thesis
  proof (intro conjI impI; (elim conjE)?)
    assume "faults w (tick w) = Some ''database is locked''"
    from round_execute_fault[OF u this]
    show "sql_write rq (f, w) = sql_write rq (f, called c (call_of rq) w)"
      by (subst sql_write.simps) (simp add: handler_def)
  next
    assume "faults w (tick w) = None" "run_db rq (file_db w (path c)) = (None, db)"
      "in_transactions f = 0" "faults w (Suc (tick w)) = Some ''database is locked''"
    from round_commit_fault[OF u this]
    show "sql_write rq (f, w) =
          sql_write rq (f, called c Commit (set_file (path c) db (called c (call_of rq) w)))"
      by (subst sql_write.simps) (simp add: handler_def)
  next
    assume "locked_from w"
    with u show "sql_write rq (f, w) = None"
      by (rule sql_write_locked_forever)
  next
    assume "faults w (tick w) = None" "run_db rq (file_db w (path c)) = (None, db)"
      "in_transactions f = 0"
      "faults w (Suc (tick w)) = Some ''cannot commit - no transaction is active''"
    from round_commit_fault[OF u this]
    show "sql_write rq (f, w) =
          Some (Inr (), (f, called c Commit (set_file (path c) db (called c (call_of rq) w))))"
      by (subst sql_write.simps) (simp add: handler_def)
  next
    assume "faults w (tick w) = Some m" "m \<noteq> ''database is locked''"
      "m \<noteq> ''cannot commit - no transaction is active''"
    with round_execute_fault[OF u this(1)]
    show "sql_write rq (f, w) = Some (Inl (OperationalError m), (f, called c (call_of rq) w))"
      by (subst sql_write.simps) (simp add: handler_def)
  next
    assume a: "faults w (tick w) = None" "run_db rq (file_db w (path c)) = (None, db)"
      "in_transactions f = 0" "faults w (Suc (tick w)) = Some m"
      and "m \<noteq> ''database is locked''" "m \<noteq> ''cannot commit - no transaction is active''"
    with round_commit_fault[OF u a]
    show "sql_write rq (f, w) =
          Some (Inl (OperationalError m),
            (f, called c Commit (set_file (path c) db (called c (call_of rq) w))))"
      by (subst sql_write.simps) (simp add: handler_def)
  next
    assume "faults w (tick w) = None" "run_db rq (file_db w (path c)) = (None, db)"
      "in_transactions f = 0" "faults w (Suc (tick w)) = None"
    from round_commit_ok[OF u this]
    show "sql_write rq (f, w) =
          Some (Inr (), (f, called c Commit (set_file (path c) db (called c (call_of rq) w))))"
      by (subst sql_write.simps) simp
  next
    assume a: "faults w (tick w) = None" "run_db rq (file_db w (path c)) = (None, db)"
      and "0 < in_transactions f"
    then have "in_transactions f \<noteq> 0"
      by simp
    from round_no_commit[OF u a this]
    show "sql_write rq (f, w) = Some (Inr (), (f, set_file (path c) db (called c (call_of rq) w)))"
      by (subst sql_write.simps) simp
  qed
qed

lemma called_fields:
  "faults (called c k w) = faults w" "tick (called c k w) = Suc (tick w)"
  by (simp_all add: called_def)

lemma example_run:
  "file_db w ''INBOX'' = example_db \<Longrightarrow>
   run_db example_request (file_db w (path example_conn)) = (None, example_updated)"
  by (simp add: example_request_def example_conn_def exec_one_def exec_update_flags
      current_schema_def example_db_def has_columns_def example_updated_def)

lemma file_db_example [simp]:
  "file_db example_world ''INBOX'' = example_db"
  "file_db (fault_at n m) ''INBOX'' = example_db"
  "file_db (called c k w) p = file_db w p"
  by (simp_all add: file_db_def example_world_def fault_at_def called_def)

lemma usable_example [simp]:
  "usable (example_folder, example_world) example_conn"
  "usable (example_folder, fault_at n m) example_conn"
  "usable (example_folder, always_locked) example_conn"
  "usable (example_folder\<lparr>in_transactions := 1\<rparr>, example_world) example_conn"
  by (simp_all add: usable_def example_folder_def example_world_def example_conn_def
      fault_at_def always_locked_def)

theorem sql_write_policy_witness:
  "usable (example_folder, example_world) example_conn \<and>
   sql_write example_request (example_folder, fault_at 0 ''database is locked'') =
     Some (Inr (), (example_folder,
       called example_conn Commit (set_file ''INBOX'' example_updated
         (called example_conn (call_of example_request)
           (called example_conn (call_of example_request)
             (fault_at 0 ''database is locked'')))))) \<and>
   sql_write example_request (example_folder, always_locked) = None \<and>
   sql_write example_request
       (example_folder, fault_at 1 ''cannot commit - no transaction is active'') =
     Some (Inr (), (example_folder,
       called example_conn Commit (set_file ''INBOX'' example_updated
         (called example_conn (call_of example_request)
           (fault_at 1 ''cannot commit - no transaction is active''))))) \<and>
   sql_write example_request (example_folder, fault_at 0 ''disk I/O error'') =
     Some (Inl (OperationalError ''disk I/O error''), (example_folder,
       called example_conn (call_of example_request) (fault_at 0 ''disk I/O error''))) \<and>
   sql_write example_request (example_folder, example_world) =
     Some (Inr (), (example_folder,
       called example_conn Commit (set_file ''INBOX'' example_updated
         (called example_conn (call_of example_request) example_world)))) \<and>
   sql_write example_request (example_folder\<lparr>in_transactions := 1\<rparr>, example_world) =
     Some (Inr (), (example_folder\<lparr>in_transactions := 1\<rparr>,
       set_file ''INBOX'' example_updated
         (called example_conn (call_of example_request) example_world)))"
proof -
  have p: "path example_conn = ''INBOX''"
    by (simp add: example_conn_def)
  have t: "tick example_world = 0" "tick (fault_at n m) = 0" "tick always_locked = 0" for n m
    by (simp_all add: example_world_def fault_at_def always_locked_def)
  have i: "in_transactions example_folder = 0"
    by (simp add: example_folder_def)
  have fa: "faults (fault_at n m) k = (if k = n then Some m else None)" for n m k
    by (simp add: fault_at_def)
  have fe: "faults example_world k = None" for k
    by (simp add: example_world_def)
  let ?l = "fault_at 0 ''database is locked''"
  have 1: "sql_write example_request (example_folder, ?l) =
      sql_write example_request
        (example_folder, called example_conn (call_of example_request) ?l)"
    using sql_write_policy[where f = example_folder and w = ?l and c = example_conn
        and rq = example_request]
    by (simp add: fa t)
  have 2: "sql_write example_request
        (example_folder, called example_conn (call_of example_request) ?l) =
     Some (Inr (), (example_folder,
       called example_conn Commit (set_file ''INBOX'' example_updated
         (called example_conn (call_of example_request)
           (called example_conn (call_of example_request) ?l)))))"
    using sql_write_policy[where f = example_folder
        and w = "called example_conn (call_of example_request) ?l" and c = example_conn
        and rq = example_request and db = example_updated]
      example_run[of "called example_conn (call_of example_request) ?l"]
    by (simp add: fa t i p called_fields)
  have lf: "locked_from always_locked"
    by (simp add: locked_from_def always_locked_def)
  have 3: "sql_write example_request (example_folder, always_locked) = None"
    using sql_write_policy[OF usable_example(3), where rq = example_request
        and db = example_updated and m = "[]"] lf
    by blast
  let ?c = "fault_at 1 ''cannot commit - no transaction is active''"
  have 4: "sql_write example_request (example_folder, ?c) =
     Some (Inr (), (example_folder,
       called example_conn Commit (set_file ''INBOX'' example_updated
         (called example_conn (call_of example_request) ?c))))"
    using sql_write_policy[where f = example_folder and w = ?c and c = example_conn
        and rq = example_request and db = example_updated] example_run[of ?c]
    by (simp add: fa t i p)
  let ?d = "fault_at 0 ''disk I/O error''"
  have 5: "sql_write example_request (example_folder, ?d) =
     Some (Inl (OperationalError ''disk I/O error''), (example_folder,
       called example_conn (call_of example_request) ?d))"
    using sql_write_policy[where f = example_folder and w = ?d and c = example_conn
        and rq = example_request and m = "''disk I/O error''"]
    by (simp add: fa t)
  have 6: "sql_write example_request (example_folder, example_world) =
     Some (Inr (), (example_folder,
       called example_conn Commit (set_file ''INBOX'' example_updated
         (called example_conn (call_of example_request) example_world))))"
    using sql_write_policy[where f = example_folder and w = example_world and c = example_conn
        and rq = example_request and db = example_updated] example_run[of example_world]
    by (simp add: fe t i p)
  have 7: "sql_write example_request (example_folder\<lparr>in_transactions := 1\<rparr>, example_world) =
     Some (Inr (), (example_folder\<lparr>in_transactions := 1\<rparr>,
       set_file ''INBOX'' example_updated
         (called example_conn (call_of example_request) example_world)))"
    using sql_write_policy[where f = "example_folder\<lparr>in_transactions := 1\<rparr>"
        and w = example_world and c = example_conn
        and rq = example_request and db = example_updated] example_run[of example_world]
    by (simp add: fe t p)
  from 1 2 3 4 5 6 7 show ?thesis
    by simp
qed

subsection \<open>Opening and closing\<close>

lemma called_sel [simp]:
  "faults (called c k w) = faults w" "tick (called c k w) = Suc (tick w)"
  "files (called c k w) = files w" "locks (called c k w) = locks w"
  "calls (called c k w) = calls w @ [(path c, k)]" "threadsafety (called c k w) = threadsafety w"
  by (simp_all add: called_def)

lemma set_file_sel [simp]:
  "faults (set_file p db w) = faults w" "tick (set_file p db w) = tick w"
  "locks (set_file p db w) = locks w" "calls (set_file p db w) = calls w"
  "threadsafety (set_file p db w) = threadsafety w"
  by (simp_all add: set_file_def)

lemma file_db_called [simp]: "file_db (called c k w) = file_db w"
  by (simp add: file_db_def fun_eq_iff)

lemma file_db_set_file [simp]:
  "file_db (set_file p db w) q = (if q = p then db else file_db w q)"
  by (simp add: file_db_def set_file_def update_conv')

lemma file_db_locks [simp]: "file_db (w\<lparr>locks := l\<rparr>) = file_db w"
  by (simp add: file_db_def fun_eq_iff)

lemma quiet_simps [simp]:
  "quiet (called c k w) = quiet w" "quiet (set_file p db w) = quiet w"
  "quiet (w\<lparr>locks := l\<rparr>) = quiet w"
  by (simp_all add: quiet_def)

lemma begin_call_quiet:
  "quiet w \<Longrightarrow> \<not> closed c \<Longrightarrow> begin_call c k w = (None, called c k w)"
  by (simp add: begin_call_def quiet_def called_def)

lemma connect_quiet:
  "quiet w \<Longrightarrow>
   connect p w = (Inr \<lparr>path = p, closed = False\<rparr>,
     set_file p (file_db w p) (called \<lparr>path = p, closed = False\<rparr> Connect w))"
  by (simp add: connect_def begin_call_quiet Let_def)

lemma select_db_version_quiet:
  "quiet w \<Longrightarrow> \<not> closed c \<Longrightarrow> metadata (file_db w (path c)) = Some m \<Longrightarrow>
   select_db_version c w = (Inr (map_of m ''db_version''), called c Select_db_version w)"
  by (simp add: select_db_version_def begin_call_quiet)

lemma script_and_commit_quiet:
  "quiet w \<Longrightarrow> connection f = Some c \<Longrightarrow> \<not> closed c \<Longrightarrow>
   exec_script ss (file_db w (path c)) = (None, db) \<Longrightarrow>
   script_and_commit ss (f, w) =
     (Inr (), (f, called c Commit (set_file (path c) db (called c (ExecuteScript ss) w))))"
  by (simp add: script_and_commit_def conn_executescript_def conn_call_def conn_commit_def
      begin_call_quiet)

lemma py_int_1 [simp]: "py_int ''1'' = Some 1"
  by (simp add: py_int_def strip_def is_space_def is_digit_def digits_value_def)

lemma py_int_2 [simp]: "py_int ''2'' = Some 2"
  by (simp add: py_int_def strip_def is_space_def is_digit_def digits_value_def)

lemma exec_upgrade_script:
  assumes "metadata db = Some md" "status db = Some t"
    "''mtime'' \<notin> set (columns t)" "''labels'' \<notin> set (columns t)"
  shows "exec_script [ALTER_status_ADD_mtime, ALTER_status_ADD_labels,
       UPDATE_metadata ''db_version'' ''2''] db = (None, upgraded db)"
  using assms by (simp add: upgraded_def comp_def case_prod_unfold)

lemma calls_update_simps [simp]:
  "quiet (w\<lparr>calls := k\<rparr>) = quiet w" "file_db (w\<lparr>calls := k\<rparr>) = file_db w"
  by (simp_all add: quiet_def file_db_def fun_eq_iff)

lemma release_sel [simp]:
  "file_db (release p w) = file_db w" "calls (release p w) = calls w"
  "locks (release p w) q = (if q = p then (locks w p)\<lparr>held := False\<rparr> else locks w q)"
  by (simp_all add: release_def file_db_def fun_eq_iff)

lemma upgrade_db_quiet:
  assumes "quiet w" "from_ver \<le> 1"
    "exec_script [ALTER_status_ADD_mtime, ALTER_status_ADD_labels,
       UPDATE_metadata ''db_version'' ''2''] (file_db w (filename f)) = (None, db)"
  shows "\<exists>w'. upgrade_db from_ver (f, w) =
      (Inr (), (f\<lparr>connection := Some \<lparr>path = filename f, closed = False\<rparr>\<rparr>, w'))
    \<and> file_db w' (filename f) = db \<and> locks w' = locks w"
  using assms
  by (cases "connection f")
    (simp_all add: upgrade_db_def conn_close_def connect_quiet script_and_commit_quiet)

lemma map_of_modify_const:
  "map_of al k = Some v \<Longrightarrow> map_of (modify k (\<lambda>_. v') al) k = Some v'"
  by (induction al) (auto simp: modify_def split: if_splits)

text \<open>
  C4: in a quiet world, \<^verbatim>\<open>openfiles\<close> on a file whose \<^verbatim>\<open>db_version\<close> is \<^verbatim>\<open>'1'\<close> and whose
  table \<^verbatim>\<open>status\<close> has no column \<^verbatim>\<open>mtime\<close> and no column \<^verbatim>\<open>labels\<close> returns with the
  folder connected; the table then has both columns after the ones it had, every row that
  was there has \<^verbatim>\<open>mtime\<close> 0 and \<^verbatim>\<open>labels\<close> the empty string and is otherwise as it was, and
  \<^verbatim>\<open>db_version\<close> is \<^verbatim>\<open>'2'\<close>.
\<close>

theorem openfiles_upgrades_version_1:
  assumes "threadsafety w = 1" and "\<not> held (locks w (filename f))" and "quiet w"
    and "metadata (file_db w (filename f)) = Some md"
    and "map_of md ''db_version'' = Some ''1''"
    and "status (file_db w (filename f)) = Some t"
    and "''mtime'' \<notin> set (columns t)" and "''labels'' \<notin> set (columns t)"
  shows "\<exists>f' w'. openfiles (f, w) = Some (Inr (), (f', w'))
     \<and> connection f' = Some \<lparr>path = filename f, closed = False\<rparr>
     \<and> status (file_db w' (filename f)) =
         Some \<lparr>columns = columns t @ [''mtime'', ''labels''],
               rows = map (\<lambda>(i, r). (i, r\<lparr>col_mtime := Some 0, col_labels := Some []\<rparr>)) (rows t)\<rparr>
     \<and> metadata (file_db w' (filename f)) = Some (modify ''db_version'' (\<lambda>_. ''2'') md)
     \<and> map_of (modify ''db_version'' (\<lambda>_. ''2'') md) ''db_version'' = Some ''2''"
proof -
  let ?p = "filename f"
  let ?c = "\<lparr>path = ?p, closed = False\<rparr>"
  let ?w1 = "w\<lparr>locks := (locks w)(?p := (locks w ?p)\<lparr>held := True\<rparr>)\<rparr>"
  let ?w2 = "set_file ?p (file_db w ?p) (called ?c Connect ?w1)"
  let ?w3 = "?w2\<lparr>locks := (locks ?w2)(?p := registerNewUser (locks ?w2 ?p))\<rparr>"
  let ?w4 = "called ?c Select_db_version ?w3"
  have acq: "acquire ?p w = Some ?w1"
    using assms(2) by (simp add: acquire_def)
  have q: "quiet ?w4"
    using assms(3) by simp
  have db4: "file_db ?w4 ?p = file_db w ?p"
    by simp
  have scr: "exec_script [ALTER_status_ADD_mtime, ALTER_status_ADD_labels,
       UPDATE_metadata ''db_version'' ''2''] (file_db ?w4 (filename (f\<lparr>connection := Some ?c\<rparr>))) =
       (None, upgraded (file_db w ?p))"
    using exec_upgrade_script[OF assms(4) assms(6) assms(7) assms(8)] by simp
  from upgrade_db_quiet[OF q _ scr, of 1]
  obtain w5 where up: "upgrade_db 1 (f\<lparr>connection := Some ?c\<rparr>, ?w4) =
      (Inr (), (f\<lparr>connection := Some ?c\<rparr>, w5))" and db5: "file_db w5 ?p = upgraded (file_db w ?p)"
    by auto
  have "openfiles_locked (f, ?w1) = (Inr (), (f\<lparr>connection := Some ?c\<rparr>, w5))"
    using assms(3,4,5) up
    by (simp add: openfiles_locked_def connect_quiet Let_def select_db_version_quiet cur_version_def)
  then have "openfiles (f, w) = Some (Inr (), (f\<lparr>connection := Some ?c\<rparr>, release ?p w5))"
    using assms(1) acq by (simp add: openfiles_def)
  moreover have "file_db (release ?p w5) ?p = upgraded (file_db w ?p)"
    using db5 by simp
  moreover have "map_of (modify ''db_version'' (\<lambda>_. ''2'') md) ''db_version'' = Some ''2''"
    using assms(5) by (rule map_of_modify_const)
  ultimately show ?thesis
    using assms(4,6) by (simp add: upgraded_def)
qed

lemma begin_call_locks: "begin_call c k w = (r, w') \<Longrightarrow> locks w' = locks w"
  by (auto simp: begin_call_def Let_def split: if_splits option.splits)

lemma conn_call_locks: "conn_call c k g w = (r, w') \<Longrightarrow> locks w' = locks w"
  by (auto simp: conn_call_def split: prod.splits option.splits dest: begin_call_locks)

lemma connect_res:
  "connect p w = (Inr c, w') \<Longrightarrow> c = \<lparr>path = p, closed = False\<rparr> \<and> locks w' = locks w"
  by (auto simp: connect_def Let_def split: prod.splits option.splits dest: begin_call_locks)

lemma connect_locks: "connect p w = (r, w') \<Longrightarrow> locks w' = locks w"
  by (auto simp: connect_def Let_def split: prod.splits option.splits dest: begin_call_locks)

lemma select_db_version_locks: "select_db_version c w = (r, w') \<Longrightarrow> locks w' = locks w"
  by (auto simp: select_db_version_def split: prod.splits option.splits dest: begin_call_locks)

lemma script_and_commit_res:
  "script_and_commit ss (f, w) = (r, (f', w')) \<Longrightarrow> f' = f \<and> locks w' = locks w"
  by (auto simp: script_and_commit_def conn_executescript_def conn_commit_def
      split: prod.splits option.splits dest!: begin_call_locks conn_call_locks)

lemma create_db_res:
  "create_db (f, w) = (Inr u, (f', w')) \<Longrightarrow>
   connection f' = connection f \<and> filename f' = filename f \<and> locks w' = locks w"
  by (auto simp: create_db_def split: prod.splits sum.splits dest: script_and_commit_res)

lemma upgrade_db_res:
  "upgrade_db v (f, w) = (Inr u, (f', w')) \<Longrightarrow>
   connection f' = Some \<lparr>path = filename f, closed = False\<rparr> \<and> filename f' = filename f \<and>
   locks w' = locks w"
  by (auto simp: upgrade_db_def conn_close_def Let_def
      split: prod.splits sum.splits option.splits if_splits
      dest!: script_and_commit_res connect_res)

lemma openfiles_locked_res:
  assumes "openfiles_locked (f, w) = (Inr u, (f', w'))"
  shows "connection f' = Some \<lparr>path = filename f, closed = False\<rparr> \<and> filename f' = filename f \<and>
    locks w' = (locks w)(filename f := registerNewUser (locks w (filename f)))"
proof -
  from assms obtain c w1 where c: "connect (filename f) w = (Inr c, w1)"
    by (auto simp: openfiles_locked_def split: prod.splits sum.splits error.splits)
  from connect_res[OF c] have c': "c = \<lparr>path = filename f, closed = False\<rparr>" and l1: "locks w1 = locks w"
    by simp_all
  let ?f1 = "f\<lparr>connection := Some c\<rparr>"
  let ?w2 = "w1\<lparr>locks := (locks w1)(filename f := registerNewUser (locks w1 (filename f)))\<rparr>"
  obtain r3 w3 where s: "select_db_version c ?w2 = (r3, w3)"
    by (cases "select_db_version c ?w2")
  from select_db_version_locks[OF s] l1
  have l3: "locks w3 = (locks w)(filename f := registerNewUser (locks w (filename f)))"
    by simp
  from assms c s have
    "(\<exists>e. r3 = Inl e \<and> create_db (?f1, w3) = (Inr u, (f', w'))) \<or>
     (\<exists>v. upgrade_db v (?f1, w3) = (Inr u, (f', w'))) \<or> (f', w') = (?f1, w3)"
    by (auto simp: openfiles_locked_def Let_def split: sum.splits option.splits if_splits)
  then show ?thesis
    using c' l3 by (auto dest!: create_db_res upgrade_db_res)
qed

lemma openfiles_res:
  assumes "openfiles (f, w) = Some (Inr u, (f', w'))"
  shows "connection f' = Some \<lparr>path = filename f, closed = False\<rparr> \<and> filename f' = filename f \<and>
    \<not> held (locks w' (filename f)) \<and>
    counter (locks w' (filename f)) = counter (locks w (filename f)) + 1"
proof -
  from assms obtain w1 where a: "acquire (filename f) w = Some w1"
    by (auto simp: openfiles_def split: if_splits option.splits)
  then have w1: "w1 = w\<lparr>locks := (locks w)(filename f := (locks w (filename f))\<lparr>held := True\<rparr>)\<rparr>"
    by (auto simp: acquire_def split: if_splits)
  from assms a obtain w2 where o: "openfiles_locked (f, w1) = (Inr u, (f', w2))"
    and w': "w' = release (filename f) w2"
    by (auto simp: openfiles_def split: if_splits prod.splits)
  from openfiles_locked_res[OF o] w1 w' show ?thesis
    by (simp add: registerNewUser_def)
qed

lemma unheld_counter: "\<not> held l \<Longrightarrow> l\<lparr>counter := x, held := False\<rparr> = l\<lparr>counter := x\<rparr>"
  by (cases l) simp

lemma closefiles_free:
  assumes "\<not> held (locks w (filename f))"
  shows "closefiles (f, w) =
     (if counter (locks w (filename f)) < 2 then
        (case connection f of
           None \<Rightarrow> Some (Inr (), (f, w\<lparr>locks := (locks w)(filename f := removeOneUser (locks w (filename f)))\<rparr>))
         | Some c \<Rightarrow> Some (Inr (), (f\<lparr>connection := Some (c\<lparr>closed := True\<rparr>)\<rparr>,
             w\<lparr>locks := (locks w)(filename f := removeOneUser (locks w (filename f))),
               calls := calls w @ [(path c, Close)]\<rparr>)))
      else Some (Inr (), (f, w\<lparr>locks := (locks w)(filename f := removeOneUser (locks w (filename f)))\<rparr>)))"
  using assms
  by (auto simp: closefiles_def acquire_def release_def shouldClose_def removeOneUser_def
      conn_close_def Let_def unheld_counter split: option.splits)

lemma openfiles_current_quiet:
  assumes "threadsafety w = 1" and "\<not> held (locks w (filename f))" and "quiet w"
    and "metadata (file_db w (filename f)) = Some md"
    and "map_of md ''db_version'' = Some ''2''"
  shows "\<exists>w'. openfiles (f, w) =
       Some (Inr (), (f\<lparr>connection := Some \<lparr>path = filename f, closed = False\<rparr>\<rparr>, w'))
     \<and> threadsafety w' = 1 \<and> quiet w' \<and> file_db w' (filename f) = file_db w (filename f)"
proof -
  let ?p = "filename f"
  let ?w1 = "w\<lparr>locks := (locks w)(?p := (locks w ?p)\<lparr>held := True\<rparr>)\<rparr>"
  have acq: "acquire ?p w = Some ?w1"
    using assms(2) by (simp add: acquire_def)
  have "\<exists>w2. openfiles_locked (f, ?w1) =
      (Inr (), (f\<lparr>connection := Some \<lparr>path = ?p, closed = False\<rparr>\<rparr>, w2))
      \<and> threadsafety w2 = 1 \<and> quiet w2 \<and> file_db w2 ?p = file_db w ?p"
    using assms
    by (simp add: openfiles_locked_def connect_quiet Let_def select_db_version_quiet cur_version_def)
  then obtain w2 where "openfiles_locked (f, ?w1) =
      (Inr (), (f\<lparr>connection := Some \<lparr>path = ?p, closed = False\<rparr>\<rparr>, w2))"
      "threadsafety w2 = 1" "quiet w2" "file_db w2 ?p = file_db w ?p"
    by blast
  then show ?thesis
    using assms(1) acq by (simp add: openfiles_def release_def quiet_def)
qed

text \<open>
  C9: two folders on the same file name, opened one after the other while the lock of the
  file has no user, share that lock and its count is 2, each with an open connection of its
  own. When the first calls \<^verbatim>\<open>closefiles\<close> the count is 1, \<^verbatim>\<open>shouldClose()\<close> is false and no
  call is made on any connection; when the second calls it the count is 0, \<^verbatim>\<open>shouldClose()\<close>
  is true and its connection is closed.
\<close>

theorem shared_lock_user_count:
  assumes "filename fb = filename fa" and "counter (locks w (filename fa)) = 0"
    and "openfiles (fa, w) = Some (Inr (), (fa1, w1))"
    and "openfiles (fb, w1) = Some (Inr (), (fb1, w2))"
  shows "counter (locks w2 (filename fa)) = 2 \<and>
     connection fa1 = Some \<lparr>path = filename fa, closed = False\<rparr> \<and>
     connection fb1 = Some \<lparr>path = filename fa, closed = False\<rparr> \<and>
     (\<exists>w3. closefiles (fa1, w2) = Some (Inr (), (fa1, w3)) \<and>
        counter (locks w3 (filename fa)) = 1 \<and> \<not> shouldClose (locks w3 (filename fa)) \<and>
        calls w3 = calls w2 \<and>
        (\<exists>fb2 w4. closefiles (fb1, w3) = Some (Inr (), (fb2, w4)) \<and>
           counter (locks w4 (filename fa)) = 0 \<and> shouldClose (locks w4 (filename fa)) \<and>
           connection fb2 = Some \<lparr>path = filename fa, closed = True\<rparr> \<and>
           calls w4 = calls w3 @ [(filename fa, Close)]))"
proof -
  let ?p = "filename fa"
  note a = openfiles_res[OF assms(3)]
  note b = openfiles_res[OF assms(4)]
  from a assms(2) have c1: "counter (locks w1 ?p) = 1"
    by simp
  from b c1 assms(1) have c2: "counter (locks w2 ?p) = 2" and h2: "\<not> held (locks w2 ?p)"
    by simp_all
  from a have fa1: "filename fa1 = ?p" "connection fa1 = Some \<lparr>path = ?p, closed = False\<rparr>"
    by simp_all
  from b assms(1) have fb1: "filename fb1 = ?p" "connection fb1 = Some \<lparr>path = ?p, closed = False\<rparr>"
    by simp_all
  let ?w3 = "w2\<lparr>locks := (locks w2)(?p := removeOneUser (locks w2 ?p))\<rparr>"
  have cl1: "closefiles (fa1, w2) = Some (Inr (), (fa1, ?w3))"
    using closefiles_free[of w2 fa1] h2 c2 fa1 by simp
  have h3: "\<not> held (locks ?w3 ?p)" and c3: "counter (locks ?w3 ?p) = 1"
    using h2 c2 by (simp_all add: removeOneUser_def)
  let ?w4 = "?w3\<lparr>locks := (locks ?w3)(?p := removeOneUser (locks ?w3 ?p)),
               calls := calls ?w3 @ [(?p, Close)]\<rparr>"
  have cl2: "closefiles (fb1, ?w3) =
      Some (Inr (), (fb1\<lparr>connection := Some \<lparr>path = ?p, closed = True\<rparr>\<rparr>, ?w4))"
    using closefiles_free[of ?w3 fb1] h3 c3 fb1 by simp
  have c4: "counter (locks ?w4 ?p) = 0"
    using c3 by (simp add: removeOneUser_def)
  show ?thesis
    using c2 fa1(2) fb1(2) cl1 c3 cl2 c4
    by (simp add: shouldClose_def)
qed

lemma fresh_world_facts:
  "threadsafety fresh_world = 1" "\<not> held (locks fresh_world p)" "quiet fresh_world"
  "counter (locks fresh_world p) = 0" "file_db fresh_world ''INBOX'' = example_db"
  by (simp_all add: fresh_world_def example_world_def new_lock_def quiet_def file_db_def)

lemma version_1_world_facts:
  "threadsafety version_1_world = 1" "\<not> held (locks version_1_world p)" "quiet version_1_world"
  "file_db version_1_world ''INBOX'' = version_1_db"
  by (simp_all add: version_1_world_def fresh_world_def example_world_def new_lock_def quiet_def
      file_db_def)

lemma filename_unopened: "filename unopened_folder = ''INBOX''"
  by (simp add: unopened_folder_def example_folder_def)

theorem openfiles_upgrades_version_1_witness:
  "threadsafety version_1_world = 1 \<and> \<not> held (locks version_1_world (filename unopened_folder)) \<and>
   quiet version_1_world \<and>
   (\<exists>f' w'. openfiles (unopened_folder, version_1_world) = Some (Inr (), (f', w')) \<and>
      status (file_db w' ''INBOX'') =
        Some \<lparr>columns = [''id'', ''flags'', ''mtime'', ''labels''],
              rows = [(5, \<lparr>col_flags = Some ''S'', col_mtime = Some 0, col_labels = Some []\<rparr>)]\<rparr> \<and>
      metadata (file_db w' ''INBOX'') = Some [(''db_version'', ''2'')])"
proof -
  have m: "metadata (file_db version_1_world (filename unopened_folder)) =
      Some [(''db_version'', ''1'')]"
    and v: "map_of [(''db_version'', ''1'')] ''db_version'' = Some ''1''"
    and t: "status (file_db version_1_world (filename unopened_folder)) =
      Some \<lparr>columns = [''id'', ''flags''],
        rows = [(5, \<lparr>col_flags = Some ''S'', col_mtime = None, col_labels = None\<rparr>)]\<rparr>"
    and c: "''mtime'' \<notin> set (columns \<lparr>columns = [''id'', ''flags''],
        rows = [(5, \<lparr>col_flags = Some ''S'', col_mtime = None, col_labels = None\<rparr>)]\<rparr>)"
      "''labels'' \<notin> set (columns \<lparr>columns = [''id'', ''flags''],
        rows = [(5, \<lparr>col_flags = Some ''S'', col_mtime = None, col_labels = None\<rparr>)]\<rparr>)"
    by (simp_all add: filename_unopened version_1_world_facts version_1_db_def)
  from openfiles_upgrades_version_1[OF version_1_world_facts(1) version_1_world_facts(2)
      version_1_world_facts(3) m v t c]
  have "\<exists>f' w'. openfiles (unopened_folder, version_1_world) = Some (Inr (), (f', w')) \<and>
      status (file_db w' ''INBOX'') =
        Some \<lparr>columns = [''id'', ''flags'', ''mtime'', ''labels''],
              rows = [(5, \<lparr>col_flags = Some ''S'', col_mtime = Some 0, col_labels = Some []\<rparr>)]\<rparr> \<and>
      metadata (file_db w' ''INBOX'') = Some [(''db_version'', ''2'')]"
    by (simp add: filename_unopened modify_def) blast
  then show ?thesis
    by (simp add: version_1_world_facts)
qed

theorem shared_lock_user_count_witness:
  "filename unopened_folder = filename unopened_folder \<and>
   counter (locks fresh_world (filename unopened_folder)) = 0 \<and>
   (\<exists>fa1 w1 fb1 w2.
      openfiles (unopened_folder, fresh_world) = Some (Inr (), (fa1, w1)) \<and>
      openfiles (unopened_folder, w1) = Some (Inr (), (fb1, w2)) \<and>
      counter (locks w2 ''INBOX'') = 2 \<and>
      (\<exists>w3. closefiles (fa1, w2) = Some (Inr (), (fa1, w3)) \<and>
         counter (locks w3 ''INBOX'') = 1 \<and> \<not> shouldClose (locks w3 ''INBOX'') \<and>
         calls w3 = calls w2 \<and>
         (\<exists>fb2 w4. closefiles (fb1, w3) = Some (Inr (), (fb2, w4)) \<and>
            counter (locks w4 ''INBOX'') = 0 \<and> shouldClose (locks w4 ''INBOX'') \<and>
            connection fb2 = Some \<lparr>path = ''INBOX'', closed = True\<rparr> \<and>
            calls w4 = calls w3 @ [(''INBOX'', Close)])))"
proof -
  have md: "metadata example_db = Some [(''db_version'', ''2'')]"
    "map_of [(''db_version'', ''2'')] ''db_version'' = Some ''2''"
    by (simp_all add: example_db_def)
  from openfiles_current_quiet[of fresh_world unopened_folder "[(''db_version'', ''2'')]"]
  obtain fa1 w1 where o1: "openfiles (unopened_folder, fresh_world) = Some (Inr (), (fa1, w1))"
    and w1: "threadsafety w1 = 1" "quiet w1" "file_db w1 ''INBOX'' = example_db"
    by (auto simp: fresh_world_facts filename_unopened md)
  from openfiles_res[OF o1] have h1: "\<not> held (locks w1 (filename unopened_folder))"
    by simp
  from openfiles_current_quiet[OF w1(1) h1 w1(2), of "[(''db_version'', ''2'')]"]
  obtain fb1 w2 where o2: "openfiles (unopened_folder, w1) = Some (Inr (), (fb1, w2))"
    by (auto simp: filename_unopened md w1)
  from shared_lock_user_count[OF refl _ o1 o2] o1 o2 show ?thesis
    by (simp add: fresh_world_facts filename_unopened)
qed

subsection \<open>Deleting messages\<close>

lemma fold_delete_filter:
  "fold AList.delete l rs = filter (\<lambda>(i, r). i \<notin> set l) rs"
proof (induction l arbitrary: rs)
  case Nil
  then show ?case by simp
next
  case (Cons u l)
  have "AList.delete u rs = filter (\<lambda>(i, r). i \<noteq> u) rs"
    by (induction rs) auto
  with Cons show ?case
    by (auto simp: case_prod_unfold intro: filter_cong)
qed

lemma exec_many_delete:
  "current_schema db \<Longrightarrow>
   exec_many (map DELETE_status l) db = (None, map_rows (fold AList.delete l) db)"
proof (induction l arbitrary: db)
  case Nil
  then show ?case
    by (cases "status db") (simp_all add: map_rows_def)
next
  case (Cons u l)
  then show ?case
    by (simp add: exec_delete map_rows_comp comp_def)
qed

lemma uidexists_delete:
  "uidexists (f\<lparr>messagelist := AList.delete u (messagelist f)\<rparr>) v = (uidexists f v \<and> v \<noteq> u)"
  by (auto simp: uidexists_def AList.delete_eq)

lemma del_items_distinct:
  "distinct l \<Longrightarrow> \<forall>u \<in> set l. uidexists f u \<Longrightarrow>
   del_items l f = (Inr (), f\<lparr>messagelist := fold AList.delete l (messagelist f)\<rparr>)"
proof (induction l arbitrary: f)
  case Nil
  then show ?case by simp
next
  case (Cons u l)
  let ?f = "f\<lparr>messagelist := AList.delete u (messagelist f)\<rparr>"
  from Cons.prems have "distinct l" and "\<forall>v \<in> set l. uidexists ?f v"
    by (auto simp: uidexists_delete)
  from Cons.IH[OF this] Cons.prems show ?case
    by simp
qed

text \<open>
  For a list of uids without repetition, \<^verbatim>\<open>deletemessages\<close> removes the uids of the list
  that are in the message list, and only them, from the message list and from the table, with
  one \<^verbatim>\<open>executemany\<close>; with none of them in the message list it does nothing.
\<close>

lemma deletemessages_distinct:
  assumes "ready (f, w)" and "current_schema (store (f, w))" and "distinct uidlist"
  shows "deletemessages uidlist (f, w) =
     (let present = filter (uidexists f) uidlist in
      if present = [] then Some (Inr (), (f, w))
      else Some (Inr (),
        (f\<lparr>messagelist := filter (\<lambda>(u, m). u \<notin> set present) (messagelist f)\<rparr>,
         snd (wrote (RunMany (map DELETE_status present))
           (map_rows (filter (\<lambda>(i, r). i \<notin> set present)) (store (f, w))) (f, w)))))"
proof -
  let ?l = "filter (uidexists f) uidlist"
  have d: "distinct ?l" "\<forall>u \<in> set ?l. uidexists f u"
    using assms(3) by simp_all
  have w: "sql_write (RunMany (map DELETE_status ?l)) (f, w) =
      Some (Inr (), wrote (RunMany (map DELETE_status ?l))
        (map_rows (fold AList.delete ?l) (store (f, w))) (f, w))"
    using sql_write_ready[OF assms(1), of "RunMany (map DELETE_status ?l)"]
    by (simp add: exec_many_delete[OF assms(2)])
  have fd: "fold AList.delete ?l = filter (\<lambda>(i, r :: row). i \<notin> set ?l)"
    "fold AList.delete ?l = filter (\<lambda>(i, m :: message). i \<notin> set ?l)"
    by (rule ext, rule fold_delete_filter)+
  show ?thesis
    unfolding deletemessages_def Let_def
    by (simp add: w wrote_def del_items_distinct[OF d] fd del: filter_filter)
qed


lemma deletemessage_absent:
  "\<not> uidexists f u \<Longrightarrow> deletemessage u (f, w) = Some (Inr (), (f, w))"
  by (simp add: deletemessage_def)

lemma deletemessage_present:
  assumes "ready (f, w)" and "current_schema (store (f, w))" and "uidexists f u"
  shows "deletemessage u (f, w) =
     Some (Inr (), (f\<lparr>messagelist := AList.delete u (messagelist f)\<rparr>,
       snd (wrote (Run (DELETE_status u)) (map_rows (AList.delete u) (store (f, w))) (f, w))))"
  using assms sql_write_ready[OF assms(1), of "Run (DELETE_status u)"]
  by (simp add: deletemessage_def exec_one_def exec_delete wrote_def)

text \<open>
  C5 at a list that names a uid of the message list twice: both occurrences pass the filter,
  the \<^verbatim>\<open>DELETE\<close> is executed for both, and the second \<^verbatim>\<open>del\<close> raises \<^verbatim>\<open>KeyError\<close>, the
  message having been removed. Calling \<^verbatim>\<open>deletemessage\<close> for the uid twice returns
  normally.
\<close>

theorem deletemessages_repeated_uid:
  "deletemessages [5, 5] (example_folder, example_world) =
     Some (Inl (KeyError 5), (example_folder\<lparr>messagelist := []\<rparr>,
       snd (wrote (RunMany [DELETE_status 5, DELETE_status 5])
         (map_rows (fold AList.delete [5, 5]) (store (example_folder, example_world)))
         (example_folder, example_world)))) \<and>
   (case deletemessage 5 (example_folder, example_world) of
      Some (Inr u, s) \<Rightarrow> map_option fst (deletemessage 5 s)
    | _ \<Rightarrow> None) = Some (Inr ())"
proof -
  have p: "filter (uidexists example_folder) [5, 5] = [5, 5]"
    by (simp add: uidexists_example)
  have w: "sql_write (RunMany [DELETE_status 5, DELETE_status 5]) (example_folder, example_world) =
      Some (Inr (), wrote (RunMany [DELETE_status 5, DELETE_status 5])
        (map_rows (fold AList.delete [5, 5]) (store (example_folder, example_world)))
        (example_folder, example_world))"
    using sql_write_ready[OF ready_example, of "RunMany (map DELETE_status [5, 5])"]
      exec_many_delete[OF current_schema_example, of "[5, 5]"]
    by (simp del: fold_simps)
  have d: "del_items [5, 5] example_folder = (Inl (KeyError 5), example_folder\<lparr>messagelist := []\<rparr>)"
    by (simp add: uidexists_def example_folder_def)
  have 1: "deletemessages [5, 5] (example_folder, example_world) =
     Some (Inl (KeyError 5), (example_folder\<lparr>messagelist := []\<rparr>,
       snd (wrote (RunMany [DELETE_status 5, DELETE_status 5])
         (map_rows (fold AList.delete [5, 5]) (store (example_folder, example_world)))
         (example_folder, example_world))))"
    by (simp add: deletemessages_def uidexists_example w d wrote_def
        del: del_items.simps fold_simps)
  have e: "\<not> uidexists (example_folder\<lparr>messagelist := AList.delete 5 (messagelist example_folder)\<rparr>) 5"
    by (simp add: uidexists_delete)
  have 2: "(case deletemessage 5 (example_folder, example_world) of
      Some (Inr u, s) \<Rightarrow> map_option fst (deletemessage 5 s)
    | _ \<Rightarrow> None) = Some (Inr ())"
    using deletemessage_absent[OF e]
    by (simp add: deletemessage_present[OF ready_example current_schema_example uidexists_example])
  from 1 2 show ?thesis
    by simp
qed

subsection \<open>Labels in bulk\<close>

lemma map_rows_id: "map_rows (\<lambda>rs. rs) db = db"
  by (cases "status db") (simp_all add: map_rows_def)

lemma exec_many_update_labels:
  "current_schema db \<Longrightarrow>
   exec_many (map (\<lambda>(u, l). UPDATE_labels (labels_str l) u) kvs) db =
     (None, map_rows (fold relabel_row kvs) db)"
proof (induction kvs arbitrary: db)
  case Nil
  then show ?case
    by (simp add: map_rows_id)
next
  case (Cons kv kvs)
  obtain u l where kv: "kv = (u, l)" by (cases kv)
  from Cons show ?case
    by (simp add: kv exec_update_labels map_rows_comp comp_def relabel_row_def)
qed

lemma uidexists_modify [simp]:
  "uidexists (f\<lparr>messagelist := modify u g (messagelist f)\<rparr>) v = uidexists f v"
  by (force simp: uidexists_def modify_def)

lemma assign_labels_present:
  "\<forall>kv \<in> set kvs. uidexists f (fst kv) \<Longrightarrow>
   assign_labels kvs f = (Inr (), f\<lparr>messagelist := fold relabel kvs (messagelist f)\<rparr>)"
proof (induction kvs arbitrary: f)
  case Nil
  then show ?case by simp
next
  case (Cons kv kvs)
  obtain u l where kv: "kv = (u, l)" by (cases kv)
  let ?f = "f\<lparr>messagelist := modify u (\<lambda>m. m\<lparr>msg_labels := l\<rparr>) (messagelist f)\<rparr>"
  from Cons.prems have "\<forall>kv \<in> set kvs. uidexists ?f (fst kv)"
    by simp
  from Cons.IH[OF this] Cons.prems show ?case
    by (simp add: kv relabel_def)
qed

lemma savemessageslabelsbulk_ready:
  assumes "ready (f, w)" and "current_schema (store (f, w))"
    and "\<forall>kv \<in> set kvs. uidexists f (fst kv)"
  shows "savemessageslabelsbulk kvs (f, w) =
     Some (Inr (), (f\<lparr>messagelist := fold relabel kvs (messagelist f)\<rparr>,
       snd (wrote (RunMany (map (\<lambda>(u, l). UPDATE_labels (labels_str l) u) kvs))
         (map_rows (fold relabel_row kvs) (store (f, w))) (f, w))))"
  using sql_write_ready[OF assms(1),
      of "RunMany (map (\<lambda>(u, l). UPDATE_labels (labels_str l) u) kvs)"]
  by (simp add: savemessageslabelsbulk_def exec_many_update_labels[OF assms(2)] wrote_def
      assign_labels_present[OF assms(3)])

lemma savemessagelabels_each_ready:
  "ready (f, w) \<Longrightarrow> current_schema (store (f, w)) \<Longrightarrow> \<forall>kv \<in> set kvs. uidexists f (fst kv) \<Longrightarrow>
   \<exists>f' w'. savemessagelabels_each kvs (f, w) = Some (Inr (), (f', w')) \<and>
     messagelist f' = fold relabel kvs (messagelist f) \<and>
     store (f', w') = map_rows (fold relabel_row kvs) (store (f, w))"
proof (induction kvs arbitrary: f w)
  case Nil
  then show ?case
    by (simp add: map_rows_id)
next
  case (Cons kv kvs)
  obtain u l where kv: "kv = (u, l)" by (cases kv)
  let ?db = "map_rows (modify u (\<lambda>r. r\<lparr>col_labels := Some (labels_str l)\<rparr>)) (store (f, w))"
  let ?f = "f\<lparr>messagelist := modify u (\<lambda>m. m\<lparr>msg_labels := l\<rparr>) (messagelist f)\<rparr>"
  let ?s = "wrote (Run (UPDATE_labels (labels_str l) u)) ?db (?f, w)"
  from Cons.prems have u: "uidexists f u"
    by (simp add: kv)
  have step: "savemessagelabels u l None (f, w) = Some (Inr (), ?s)"
    by (rule savemessagelabels_plain_ready[OF Cons.prems(1) u Cons.prems(2)])
  obtain f1 w1 where s: "?s = (f1, w1)" by (cases ?s)
  have f1: "f1 = ?f"
    using s by (simp add: wrote_def)
  have r1: "ready (f1, w1)"
    using Cons.prems(1) ready_wrote[of "Run (UPDATE_labels (labels_str l) u)" ?db "(?f, w)"] s
    by simp
  have d1: "store (f1, w1) = ?db"
    using store_wrote[of "Run (UPDATE_labels (labels_str l) u)" ?db "(?f, w)"] s by simp
  have c1: "current_schema (store (f1, w1))"
    using Cons.prems(2) by (simp add: d1)
  have e1: "\<forall>kv \<in> set kvs. uidexists f1 (fst kv)"
    using Cons.prems(3) by (simp add: f1)
  from Cons.IH[OF r1 c1 e1] obtain f' w' where
    "savemessagelabels_each kvs (f1, w1) = Some (Inr (), (f', w'))"
    "messagelist f' = fold relabel kvs (messagelist f1)"
    "store (f', w') = map_rows (fold relabel_row kvs) (store (f1, w1))"
    by blast
  moreover have "relabel (u, l) = modify u (\<lambda>m. m\<lparr>msg_labels := l\<rparr>)"
    "relabel_row (u, l) = modify u (\<lambda>r. r\<lparr>col_labels := Some (labels_str l)\<rparr>)"
    by (simp_all add: relabel_def relabel_row_def)
  moreover have "store (f, w1) = ?db"
    using d1 by (simp add: f1)
  ultimately show ?case
    by (simp add: kv step s f1 map_rows_comp comp_def)
qed

lemma modify_commute:
  "u \<noteq> v \<Longrightarrow> modify u g (modify v h al) = modify v h (modify u g al)"
  by (induction al) (auto simp: modify_def)

lemma distinct_keys_differ:
  "distinct (map fst kvs) \<Longrightarrow> x \<in> set kvs \<Longrightarrow> y \<in> set kvs \<Longrightarrow> x \<noteq> y \<Longrightarrow> fst x \<noteq> fst y"
  by (metis eq_key_imp_eq_value prod.collapse)

lemma relabel_commute:
  assumes "distinct (map fst kvs)" "x \<in> set kvs" "y \<in> set kvs"
  shows "relabel x \<circ> relabel y = relabel y \<circ> relabel x"
proof (cases "x = y")
  case True
  then show ?thesis by simp
next
  case False
  from distinct_keys_differ[OF assms this] show ?thesis
    by (auto simp: relabel_def fun_eq_iff case_prod_unfold intro!: modify_commute)
qed

lemma relabel_row_commute:
  assumes "distinct (map fst kvs)" "x \<in> set kvs" "y \<in> set kvs"
  shows "relabel_row x \<circ> relabel_row y = relabel_row y \<circ> relabel_row x"
proof (cases "x = y")
  case True
  then show ?thesis by simp
next
  case False
  from distinct_keys_differ[OF assms this] show ?thesis
    by (auto simp: relabel_row_def fun_eq_iff case_prod_unfold intro!: modify_commute)
qed

text \<open>
  C6: for a dictionary whose keys are all in the message list (the keys of a dictionary are
  distinct), in a ready state with the table of version 2, \<^verbatim>\<open>savemessageslabelsbulk\<close> and
  \<^verbatim>\<open>savemessagelabels\<close> called for each item, in any order of the items, both return normally,
  with the same message list and the same database.
\<close>

theorem bulk_labels_equals_each:
  assumes "ready (f, w)" and "current_schema (store (f, w))"
    and "distinct (map fst kvs)" and "\<forall>kv \<in> set kvs. uidexists f (fst kv)"
    and "mset kvs' = mset kvs"
  shows "\<exists>sb si. savemessageslabelsbulk kvs (f, w) = Some (Inr (), sb) \<and>
     savemessagelabels_each kvs' (f, w) = Some (Inr (), si) \<and>
     messagelist (fst sb) = messagelist (fst si) \<and> store sb = store si"
proof -
  have set: "set kvs' = set kvs"
    using assms(5) by (rule mset_eq_setD)
  then have e': "\<forall>kv \<in> set kvs'. uidexists f (fst kv)"
    using assms(4) by simp
  from savemessagelabels_each_ready[OF assms(1,2) e'] obtain f' w' where
    each: "savemessagelabels_each kvs' (f, w) = Some (Inr (), (f', w'))"
    and m: "messagelist f' = fold relabel kvs' (messagelist f)"
    and d: "store (f', w') = map_rows (fold relabel_row kvs') (store (f, w))"
    by blast
  have 1: "fold relabel kvs' = fold relabel kvs"
    using assms(5) relabel_commute[OF assms(3)] by (intro fold_multiset_equiv) (auto simp: set)
  have 2: "fold relabel_row kvs' = fold relabel_row kvs"
    using assms(5) relabel_row_commute[OF assms(3)] by (intro fold_multiset_equiv) (auto simp: set)
  let ?sb = "(f\<lparr>messagelist := fold relabel kvs (messagelist f)\<rparr>,
       snd (wrote (RunMany (map (\<lambda>(u, l). UPDATE_labels (labels_str l) u) kvs))
         (map_rows (fold relabel_row kvs) (store (f, w))) (f, w)))"
  have "store ?sb = map_rows (fold relabel_row kvs) (store (f, w))"
    by (simp add: store_def wrote_def file_db_def update_conv')
  with savemessageslabelsbulk_ready[OF assms(1,2,4)] each m d 1 2 show ?thesis
    by simp
qed

lemma pair_facts:
  "ready (pair_folder, pair_world)" "current_schema (store (pair_folder, pair_world))"
  "uidexists pair_folder 5" "uidexists pair_folder 6"
  by (simp_all add: ready_def pair_folder_def pair_world_def example_folder_def example_world_def
      quiet_def store_def file_db_def current_schema_def example_db_def map_rows_def
      has_columns_def uidexists_def)

theorem bulk_labels_equals_each_witness:
  "ready (pair_folder, pair_world) \<and> current_schema (store (pair_folder, pair_world)) \<and>
   distinct (map fst [(5::int, {''Home''}), (6, {''Work'', ''Urgent''})]) \<and>
   uidexists pair_folder 5 \<and> uidexists pair_folder 6 \<and>
   mset [(6, {''Work'', ''Urgent''}), (5::int, {''Home''})] =
     mset [(5, {''Home''}), (6, {''Work'', ''Urgent''})] \<and>
   (\<exists>sb si.
      savemessageslabelsbulk [(5, {''Home''}), (6, {''Work'', ''Urgent''})]
        (pair_folder, pair_world) = Some (Inr (), sb) \<and>
      savemessagelabels_each [(6, {''Work'', ''Urgent''}), (5, {''Home''})]
        (pair_folder, pair_world) = Some (Inr (), si) \<and>
      messagelist (fst sb) = messagelist (fst si) \<and> store sb = store si)"
proof -
  have d: "distinct (map fst [(5::int, {''Home''}), (6, {''Work'', ''Urgent''})])"
    by simp
  have e: "\<forall>kv \<in> set [(5::int, {''Home''}), (6, {''Work'', ''Urgent''})]. uidexists pair_folder (fst kv)"
    by (simp add: pair_facts)
  have m: "mset [(6, {''Work'', ''Urgent''}), (5::int, {''Home''})] =
     mset [(5, {''Home''}), (6, {''Work'', ''Urgent''})]"
    by simp
  from bulk_labels_equals_each[OF pair_facts(1) pair_facts(2) d e m] pair_facts d m
  show ?thesis
    by blast
qed

subsection \<open>Flags and labels through the table\<close>

lemma split_no_sep: "c \<notin> set x \<Longrightarrow> split c x = [x]"
  by (induction x) auto

lemma split_append: "c \<notin> set x \<Longrightarrow> split c (x @ c # r) = x # split c r"
  by (induction x) auto

lemma split_join:
  "\<forall>x \<in> set xs. CHR '','' \<notin> set x \<Longrightarrow>
   split CHR '','' (join '', '' xs) =
     (case xs of [] \<Rightarrow> [[]] | x # r \<Rightarrow> x # map (\<lambda>y. CHR '' '' # y) r)"
proof (induction "'', ''" xs rule: join.induct)
  case 1
  then show ?case by simp
next
  case (2 x)
  then show ?case by (simp add: split_no_sep)
next
  case (3 x y ys)
  from 3 have "split CHR '','' (join '', '' (y # ys)) = y # map (\<lambda>y. CHR '' '' # y) ys"
    by simp
  moreover have "join '', '' (x # y # ys) = x @ CHR '','' # (CHR '' '' # join '', '' (y # ys))"
    by simp
  ultimately show ?case
    using 3(2) by (simp add: split_append del: join.simps)
qed

lemma is_space_blank: "is_space CHR '' ''"
  by (simp add: is_space_def)

lemma strip_plain: "plain_label y \<Longrightarrow> strip y = y"
proof -
  assume p: "plain_label y"
  then have a: "dropWhile is_space y = y"
    by (cases y) (auto simp: plain_label_def)
  from p have "rev y \<noteq> []" "\<not> is_space (hd (rev y))"
    by (auto simp: plain_label_def hd_rev)
  then have "dropWhile is_space (rev y) = rev y"
    by (cases "rev y") auto
  with a show ?thesis
    by (simp add: strip_def)
qed

lemma strip_blank_plain: "plain_label y \<Longrightarrow> strip (CHR '' '' # y) = y"
  using strip_plain[of y] by (simp add: strip_def is_space_blank)

lemma parse_labels_join:
  assumes "\<forall>x \<in> set xs. plain_label x"
  shows "parse_labels (Some (join '', '' xs)) = set xs"
proof (cases xs)
  case Nil
  then show ?thesis
    by (simp add: parse_labels_def strip_def)
next
  case (Cons x r)
  from assms have c: "\<forall>x \<in> set xs. CHR '','' \<notin> set x"
    by (auto simp: plain_label_def)
  have ne: "y \<noteq> []" if "plain_label y" for y
    using that by (auto simp: plain_label_def)
  have "filter (\<lambda>lb. length (strip lb) > 0) (x # map (\<lambda>y. CHR '' '' # y) r) =
      x # map (\<lambda>y. CHR '' '' # y) r"
    using assms Cons by (auto simp: filter_id_conv strip_plain strip_blank_plain ne)
  moreover have "map strip (x # map (\<lambda>y. CHR '' '' # y) r) = x # r"
    using assms Cons by (auto simp: strip_plain strip_blank_plain intro: map_idI)
  ultimately show ?thesis
    using split_join[OF c] Cons by (simp add: parse_labels_def)
qed

lemma parse_labels_str:
  "finite lb \<Longrightarrow> \<forall>l \<in> lb. plain_label l \<Longrightarrow> parse_labels (Some (labels_str lb)) = lb"
  using parse_labels_join[of "sorted_list_of_set lb"] by (simp add: labels_str_def)

lemma parse_flags_str: "parse_flags (Some (flags_str fl)) = Inr fl"
  by (simp add: parse_flags_def flags_str_def)

lemma load_rows_append:
  "load_rows (rs @ rs') ml =
     (case load_rows rs ml of (Inl e, ml') \<Rightarrow> (Inl e, ml') | (Inr u, ml') \<Rightarrow> load_rows rs' ml')"
  by (induction rs ml rule: load_rows.induct) (auto simp: Let_def split: sum.splits)

lemma load_rows_ok:
  "list_all (\<lambda>(i, r). col_flags r \<noteq> None) rs \<Longrightarrow> \<exists>ml'. load_rows rs ml = (Inr (), ml')"
  by (induction rs ml rule: load_rows.induct) (auto simp: Let_def parse_flags_def split: sum.splits)

lemma map_of_modify: "map_of (modify u g al) u = map_option g (map_of al u)"
  by (induction al) (auto simp: modify_def)

lemma load_rows_last:
  assumes "list_all (\<lambda>(i, r). col_flags r \<noteq> None) rs" and "col_flags r = Some fs"
  shows "\<exists>ml'. load_rows (rs @ [(u, r)]) ml = (Inr (), ml') \<and>
     map_of ml' u = Some \<lparr>msg_uid = u, msg_flags = set fs, msg_labels = parse_labels (col_labels r),
       msg_time = 0, msg_mtime = col_mtime r\<rparr>"
proof -
  from load_rows_ok[OF assms(1)] obtain ml1 where "load_rows rs ml = (Inr (), ml1)"
    by blast
  then show ?thesis
    using assms(2)
    by (simp add: load_rows_append Let_def parse_flags_def map_of_modify update_conv'
        msglist_item_initializer_def)
qed

lemma select_status_quiet:
  "quiet w \<Longrightarrow> \<not> closed c \<Longrightarrow> status (file_db w (path c)) = Some t \<Longrightarrow>
   has_columns t [''id'', ''flags'', ''mtime'', ''labels''] \<Longrightarrow>
   select_status c w = (Inr (rows t), called c Select_status w)"
  by (simp add: select_status_def begin_call_quiet)

lemma cachemessagelist_ready:
  assumes "ready (f, w)" and "current_schema (store (f, w))"
  shows "cachemessagelist (f, w) =
     (case load_rows (store_rows (f, w)) [] of
        (r, ml) \<Rightarrow> (r, (f\<lparr>messagelist := ml\<rparr>,
          called \<lparr>path = filename f, closed = False\<rparr> Select_status w)))"
proof -
  from assms(2) obtain t where t: "status (file_db w (filename f)) = Some t"
    "has_columns t [''id'', ''flags'', ''mtime'', ''labels'']"
    by (auto simp: current_schema_def store_def split: option.splits)
  from assms(1) have c: "connection f = Some \<lparr>path = filename f, closed = False\<rparr>" and q: "quiet w"
    by (simp_all add: ready_def)
  have "select_status \<lparr>path = filename f, closed = False\<rparr> w =
      (Inr (rows t), called \<lparr>path = filename f, closed = False\<rparr> Select_status w)"
    using select_status_quiet[OF q, of "\<lparr>path = filename f, closed = False\<rparr>" t] t by simp
  then show ?thesis
    using c t by (simp add: cachemessagelist_def store_rows_def store_def split: prod.splits)
qed

text \<open>The folder with the negative uid is what \<^verbatim>\<open>cachemessagelist\<close> loads from such a table.\<close>

lemma stray_folder_loaded:
  "fst (snd (cachemessagelist (example_folder, stray_world))) = stray_folder"
  using cachemessagelist_ready[OF ready_stray(2)] current_schema_stray
  by (simp add: store_stray store_rows_def stray_db_def Let_def parse_flags_def parse_labels_def
      strip_def msglist_item_initializer_def modify_def stray_folder_def split: prod.splits)

lemma save_and_reload_new:
  assumes "ready (f, w)" and "0 \<le> u" and "\<not> uidexists f u" and "current_schema (store (f, w))"
    and "u \<notin> fst ` set (store_rows (f, w))"
    and "list_all (\<lambda>(i, r). col_flags r \<noteq> None) (store_rows (f, w))"
  shows "\<exists>s2. save_and_reload u content fl rtime mt lb (f, w) = Some s2 \<and>
     map_of (messagelist (fst s2)) u =
       Some \<lparr>msg_uid = u, msg_flags = set (flags_str fl),
         msg_labels = parse_labels (Some (labels_str lb)), msg_time = 0, msg_mtime = Some mt\<rparr> \<and>
     map_of (store_rows s2) u =
       Some \<lparr>col_flags = Some (flags_str fl), col_mtime = Some mt,
         col_labels = Some (labels_str lb)\<rparr>"
proof -
  let ?r = "\<lparr>col_flags = Some (flags_str fl), col_mtime = Some mt, col_labels = Some (labels_str lb)\<rparr>"
  let ?rq = "Run (INSERT_status u (flags_str fl) (Some mt) (labels_str lb))"
  let ?db = "map_rows (\<lambda>rs. rs @ [(u, ?r)]) (store (f, w))"
  let ?f = "f\<lparr>messagelist := AList.update u \<lparr>msg_uid = u, msg_flags = fl, msg_labels = lb,
          msg_time = rtime, msg_mtime = Some mt\<rparr> (messagelist f)\<rparr>"
  let ?s1 = "wrote ?rq ?db (?f, w)"
  have sv: "savemessage u content fl rtime mt lb (f, w) = Some (Inr u, ?s1)"
    by (rule savemessage_new_ready[OF assms(1-5)])
  obtain f1 w1 where s1: "?s1 = (f1, w1)" by (cases ?s1)
  have r1: "ready (f1, w1)"
    using ready_wrote[of ?rq ?db "(?f, w)"] assms(1) s1 by simp
  have d1: "store (f1, w1) = ?db"
    using store_wrote[of ?rq ?db "(?f, w)"] s1 by simp
  have c1: "current_schema (store (f1, w1))"
    using assms(4) by (simp add: d1)
  have rows1: "store_rows (f1, w1) = store_rows (f, w) @ [(u, ?r)]"
    using assms(4) d1
    by (auto simp: store_rows_def map_rows_def current_schema_def split: option.splits)
  from load_rows_last[OF assms(6), of ?r "flags_str fl" u "[]"]
  obtain ml where ml: "load_rows (store_rows (f1, w1)) [] = (Inr (), ml)"
    and m: "map_of ml u = Some \<lparr>msg_uid = u, msg_flags = set (flags_str fl),
       msg_labels = parse_labels (Some (labels_str lb)), msg_time = 0, msg_mtime = Some mt\<rparr>"
    by (auto simp: rows1)
  let ?s2 = "(f1\<lparr>messagelist := ml\<rparr>, called \<lparr>path = filename f1, closed = False\<rparr> Select_status w1)"
  have cm: "cachemessagelist (f1, w1) = (Inr (), ?s2)"
    by (simp add: cachemessagelist_ready[OF r1 c1] ml)
  have "store_rows ?s2 = store_rows (f, w) @ [(u, ?r)]"
    using rows1 by (simp add: store_rows_def store_def)
  moreover have "map_of (store_rows (f, w)) u = None"
    using assms(5) by (simp add: map_of_eq_None_iff)
  ultimately have "map_of (store_rows ?s2) u = Some ?r"
    by (simp add: map_add_def)
  with sv s1 cm m show ?thesis
    by (simp add: save_and_reload_def)
qed

text \<open>
  Through \<^verbatim>\<open>savemessage\<close> the flags and the labels come back as they were saved: for any
  set of flags and any finite set of labels each of which is not empty, has no comma and has
  no white space at either end, saving a new message with them (the flags stored sorted and
  concatenated, the labels sorted and joined with \<^verbatim>\<open>', '\<close>) and loading the table with
  \<^verbatim>\<open>cachemessagelist\<close> gives the message the same flags and the same labels, and serialising
  the loaded sets gives the strings of its row again. A label with a comma comes back as two.
\<close>

lemma flags_labels_round_trip:
  assumes "ready (f, w)" and "0 \<le> u" and "\<not> uidexists f u" and "current_schema (store (f, w))"
    and "u \<notin> fst ` set (store_rows (f, w))"
    and "list_all (\<lambda>(i, r). col_flags r \<noteq> None) (store_rows (f, w))"
    and "finite lb" and "\<forall>l \<in> lb. plain_label l"
  shows "\<exists>s2 m. save_and_reload u content fl rtime mt lb (f, w) = Some s2 \<and>
     map_of (messagelist (fst s2)) u = Some m \<and> msg_flags m = fl \<and> msg_labels m = lb \<and>
     map_of (store_rows s2) u =
       Some \<lparr>col_flags = Some (flags_str (msg_flags m)), col_mtime = Some mt,
         col_labels = Some (labels_str (msg_labels m))\<rparr>"
proof -
  from save_and_reload_new[OF assms(1-6), of content fl rtime mt lb]
  obtain s2 where "save_and_reload u content fl rtime mt lb (f, w) = Some s2"
    "map_of (messagelist (fst s2)) u =
       Some \<lparr>msg_uid = u, msg_flags = set (flags_str fl),
         msg_labels = parse_labels (Some (labels_str lb)), msg_time = 0, msg_mtime = Some mt\<rparr>"
    "map_of (store_rows s2) u =
       Some \<lparr>col_flags = Some (flags_str fl), col_mtime = Some mt,
         col_labels = Some (labels_str lb)\<rparr>"
    by blast
  then show ?thesis
    by (simp add: parse_labels_str[OF assms(7,8)] flags_str_def)
qed

lemma labels_str_comma: "labels_str {''a,b''} = ''a,b''"
  by (simp add: labels_str_def)

lemma parse_labels_comma: "parse_labels (Some ''a,b'') = {''a'', ''b''}"
  by (simp add: parse_labels_def strip_def is_space_def)

lemma not_in_example: "\<not> uidexists example_folder 6"
  "6 \<notin> fst ` set (store_rows (example_folder, example_world))"
  "list_all (\<lambda>(i, r). col_flags r \<noteq> None) (store_rows (example_folder, example_world))"
proof -
  show "\<not> uidexists example_folder 6"
    by (simp add: uidexists_def example_folder_def)
  show "6 \<notin> fst ` set (store_rows (example_folder, example_world))"
    by (simp add: store_rows_example)
  show "list_all (\<lambda>(i, r). col_flags r \<noteq> None) (store_rows (example_folder, example_world))"
    by (simp add: store_rows_example)
qed

lemma labels_round_trip_comma:
  "map_option (\<lambda>s2. map_option msg_labels (map_of (messagelist (fst s2)) 6))
     (save_and_reload 6 [] {} 0 0 {''a,b''} (example_folder, example_world)) =
     Some (Some {''a'', ''b''}) \<and>
   {''a'', ''b''} \<noteq> {''a,b''}"
proof -
  have z: "(0::int) \<le> 6"
    by simp
  from save_and_reload_new[OF ready_example z not_in_example(1) current_schema_example
      not_in_example(2,3), of "[]" "{}" 0 0 "{''a,b''}"]
  show ?thesis
    by (auto simp: labels_str_comma parse_labels_comma)
qed

lemma flags_labels_round_trip_example:
  "ready (example_folder, example_world) \<and> (0::int) \<le> 6 \<and> \<not> uidexists example_folder 6 \<and>
   current_schema (store (example_folder, example_world)) \<and>
   6 \<notin> fst ` set (store_rows (example_folder, example_world)) \<and>
   list_all (\<lambda>(i, r). col_flags r \<noteq> None) (store_rows (example_folder, example_world)) \<and>
   finite {''Work'', ''My Label''} \<and> plain_label ''Work'' \<and> plain_label ''My Label'' \<and>
   (\<exists>s2 m. save_and_reload 6 [] {CHR ''S'', CHR ''F''} 0 3 {''Work'', ''My Label''}
        (example_folder, example_world) = Some s2 \<and>
      map_of (messagelist (fst s2)) 6 = Some m \<and> msg_flags m = {CHR ''S'', CHR ''F''} \<and>
      msg_labels m = {''Work'', ''My Label''} \<and>
      map_of (store_rows s2) 6 =
        Some \<lparr>col_flags = Some (flags_str (msg_flags m)), col_mtime = Some 3,
          col_labels = Some (labels_str (msg_labels m))\<rparr>)"
proof -
  have z: "(0::int) \<le> 6"
    by simp
  have p: "plain_label ''Work''" "plain_label ''My Label''"
    by (simp_all add: plain_label_def is_space_def)
  then have pl: "\<forall>l \<in> {''Work'', ''My Label''}. plain_label l"
    by simp
  have fin: "finite {''Work'', ''My Label''}"
    by simp
  from flags_labels_round_trip[OF ready_example z not_in_example(1) current_schema_example
      not_in_example(2,3) fin pl, of "[]" "{CHR ''S'', CHR ''F''}" 0 3]
    ready_example z not_in_example current_schema_example fin p
  show ?thesis
    by blast
qed

text \<open>
  \<^verbatim>\<open>saveall\<close> never returns: it holds the lock of the file when \<^verbatim>\<open>__sql_write\<close> waits for it.
\<close>

lemma saveall_never_returns: "saveall s = None"
proof (cases s)
  case (Pair f w)
  show ?thesis
  proof (cases "acquire (filename f) w")
    case None
    then show ?thesis
      by (simp add: saveall_def Pair)
  next
    case (Some w1)
    then have "held (locks w1 (filename f))"
      by (auto simp: acquire_def split: if_splits)
    then have "sql_write_round rq (f, w1) = None" for rq
      by (simp add: sql_write_round_def acquire_def)
    then have "sql_write rq (f, w1) = None" for rq
      by (subst sql_write.simps) simp
    with Some show ?thesis
      by (simp add: saveall_def Pair)
  qed
qed

text \<open>
  C2: \<^verbatim>\<open>saveall\<close>, the step that is to persist the message list, does not return. Called on
  the example (one message, flags \<^verbatim>\<open>S\<close>, label \<^verbatim>\<open>Work\<close>, the lock free) it waits for ever for
  the lock that it holds itself, so nothing is stored that \<^verbatim>\<open>cachemessagelist\<close> could load;
  the very \<^verbatim>\<open>executemany\<close> that it hands to \<^verbatim>\<open>__sql_write\<close> returns normally from the same
  state when the lock is not held around it.
\<close>

theorem saveall_round_trip_never_returns:
  "saveall (example_folder, example_world) = None \<and>
   map (\<lambda>(u, m). INSERT_OR_REPLACE_status u (flags_str (msg_flags m)) (msg_mtime m)
       (labels_str (msg_labels m))) (messagelist example_folder) =
     [INSERT_OR_REPLACE_status 5 ''S'' (Some 7) ''Work''] \<and>
   sql_write (RunMany [INSERT_OR_REPLACE_status 5 ''S'' (Some 7) ''Work''])
       (example_folder, example_world) =
     Some (Inr (), (example_folder, example_world\<lparr>tick := 2,
       calls := [(''INBOX'', ExecuteMany [INSERT_OR_REPLACE_status 5 ''S'' (Some 7) ''Work'']),
         (''INBOX'', Commit)]\<rparr>))"
proof (intro conjI)
  show "saveall (example_folder, example_world) = None"
    by (rule saveall_never_returns)
  show "map (\<lambda>(u, m). INSERT_OR_REPLACE_status u (flags_str (msg_flags m)) (msg_mtime m)
       (labels_str (msg_labels m))) (messagelist example_folder) =
     [INSERT_OR_REPLACE_status 5 ''S'' (Some 7) ''Work'']"
    by (simp add: example_folder_def flags_str_def labels_str_def)
  let ?rq = "RunMany [INSERT_OR_REPLACE_status 5 ''S'' (Some 7) ''Work'']"
  have r: "run_db ?rq (store (example_folder, example_world)) = (None, example_db)"
    unfolding store_example
    by (simp add: exec_stmt.simps on_status_def has_columns_def example_db_def)
  have "sql_write ?rq (example_folder, example_world) =
      Some (Inr (), wrote ?rq example_db (example_folder, example_world))"
    using sql_write_ready[OF ready_example, of ?rq] r by simp
  then show "sql_write ?rq (example_folder, example_world) =
     Some (Inr (), (example_folder, example_world\<lparr>tick := 2,
       calls := [(''INBOX'', ExecuteMany [INSERT_OR_REPLACE_status 5 ''S'' (Some 7) ''Work'']),
         (''INBOX'', Commit)]\<rparr>))"
    by (simp add: wrote_def example_folder_def example_world_def)
qed

end
